theory Spec2Isabelle
  imports Complex_Main
begin

section \<open>Strings as the script uses them\<close>

text \<open>
  The development embeds \<^verbatim>\<open>gift2json.js\<close>, a parser and exporter for the GIFT quiz
  format. Text is a \<^typ>\<open>string\<close>, one \<^typ>\<open>char\<close> for each code unit below 256; the
  string methods of the language that the script calls are written out here, each with the
  call it stands for. An absent index (\<^verbatim>\<open>-1\<close>) is \<^term>\<open>None\<close>.
\<close>

abbreviation BSL :: char where "BSL \<equiv> CHR 0x5C"
abbreviation NL :: char where "NL \<equiv> CHR 0x0A"
abbreviation CR :: char where "CR \<equiv> CHR 0x0D"
abbreviation TAB :: char where "TAB \<equiv> CHR 0x09"

definition isSpace :: "char \<Rightarrow> bool" where
  \<comment> \<open>the white space of \<^verbatim>\<open>\s\<close> and of \<^verbatim>\<open>trim()\<close>, below 256\<close>
  "isSpace c = (c \<in> set [TAB, NL, CHR 0x0B, CHR 0x0C, CR, CHR 0x20, CHR 0xA0])"

definition isDigit :: "char \<Rightarrow> bool" where
  "isDigit c = (c \<in> set ''0123456789'')"

definition isCntrl :: "char \<Rightarrow> bool" where
  \<comment> \<open>the class \<^verbatim>\<open>\x00-\x1F\x7F\<close>\<close>
  "isCntrl c = ((of_char c :: nat) < 32 \<or> c = CHR 0x7F)"

definition trim :: "string \<Rightarrow> string" where
  "trim s = rev (dropWhile isSpace (rev (dropWhile isSpace s)))"

definition toUpperCase :: "string \<Rightarrow> string" where
  \<comment> \<open>the letters a to z; every use compares the result with a word of capital letters\<close>
  "toUpperCase s =
     map (\<lambda>c. case map_of (zip ''abcdefghijklmnopqrstuvwxyz'' ''ABCDEFGHIJKLMNOPQRSTUVWXYZ'') c of
                 Some u \<Rightarrow> u | None \<Rightarrow> c) s"

definition toLowerCase :: "string \<Rightarrow> string" where
  \<comment> \<open>the letters A to Z; every use compares the result with a word of small letters\<close>
  "toLowerCase s =
     map (\<lambda>c. case map_of (zip ''ABCDEFGHIJKLMNOPQRSTUVWXYZ'' ''abcdefghijklmnopqrstuvwxyz'') c of
                 Some l \<Rightarrow> l | None \<Rightarrow> c) s"

fun startsWith :: "string \<Rightarrow> string \<Rightarrow> bool" where
  \<comment> \<open>\<^verbatim>\<open>s.startsWith(p)\<close>\<close>
  "startsWith s [] = True"
| "startsWith [] (p # ps) = False"
| "startsWith (c # cs) (p # ps) = (c = p \<and> startsWith cs ps)"

fun indexOf :: "string \<Rightarrow> string \<Rightarrow> nat option" where
  \<comment> \<open>\<^verbatim>\<open>s.indexOf(p)\<close>\<close>
  "indexOf [] p = (if p = [] then Some 0 else None)"
| "indexOf (c # cs) p =
     (if startsWith (c # cs) p then Some 0 else map_option Suc (indexOf cs p))"

definition indexOfFrom :: "string \<Rightarrow> string \<Rightarrow> nat \<Rightarrow> nat option" where
  \<comment> \<open>\<^verbatim>\<open>s.indexOf(p, k)\<close>\<close>
  "indexOfFrom s p k = map_option (\<lambda>i. i + k) (indexOf (drop k s) p)"

fun lastIndexOf :: "string \<Rightarrow> string \<Rightarrow> nat option" where
  \<comment> \<open>\<^verbatim>\<open>s.lastIndexOf(p)\<close>\<close>
  "lastIndexOf [] p = (if p = [] then Some 0 else None)"
| "lastIndexOf (c # cs) p =
     (case lastIndexOf cs p of
        Some i \<Rightarrow> Some (Suc i)
      | None \<Rightarrow> if startsWith (c # cs) p then Some 0 else None)"

definition includesStr :: "string \<Rightarrow> string \<Rightarrow> bool" where
  \<comment> \<open>\<^verbatim>\<open>s.includes(p)\<close>\<close>
  "includesStr s p = (indexOf s p \<noteq> None)"

definition slice :: "string \<Rightarrow> nat \<Rightarrow> nat \<Rightarrow> string" where
  \<comment> \<open>\<^verbatim>\<open>s.slice(a, b)\<close> for indices that are not negative\<close>
  "slice s a b = take (b - a) (drop a s)"

function replaceAll :: "string \<Rightarrow> string \<Rightarrow> string \<Rightarrow> string" where
  \<comment> \<open>\<^verbatim>\<open>s.replace(/p/g, r)\<close> for a pattern that is a fixed, non-empty text \<open>p\<close>:
      the matches are taken from the left and do not overlap\<close>
  "replaceAll p r [] = []"
| "replaceAll p r (c # cs) =
     (if p \<noteq> [] \<and> startsWith (c # cs) p
      then r @ replaceAll p r (drop (length p) (c # cs))
      else c # replaceAll p r cs)"
  by pat_completeness auto
termination
  by (relation "measure (\<lambda>(p, r, s). length s)") auto

function split :: "string \<Rightarrow> string \<Rightarrow> string list" where
  \<comment> \<open>\<^verbatim>\<open>s.split(sep)\<close> for a fixed, non-empty separator, written \<open>split sep s\<close>\<close>
  "split sep [] = [[]]"
| "split sep (c # cs) =
     (if sep \<noteq> [] \<and> startsWith (c # cs) sep
      then [] # split sep (drop (length sep) (c # cs))
      else (case split sep cs of
              [] \<Rightarrow> [[c]]
            | piece # pieces \<Rightarrow> (c # piece) # pieces))"
  by pat_completeness auto
termination
  by (relation "measure (\<lambda>(sep, s). length s)") auto

definition join :: "string \<Rightarrow> string list \<Rightarrow> string" where
  \<comment> \<open>\<^verbatim>\<open>xs.join(sep)\<close>\<close>
  "join sep xs = (case xs of [] \<Rightarrow> [] | y # ys \<Rightarrow> y @ concat (map (\<lambda>z. sep @ z) ys))"

section \<open>Utilities\<close>

datatype FORMAT = MOODLE | HTML | PLAIN | MARKDOWN

fun formatConstToName :: "FORMAT \<Rightarrow> string" where
  \<comment> \<open>also the text each constant of \<^verbatim>\<open>FORMAT\<close> is\<close>
  "formatConstToName HTML = ''html''"
| "formatConstToName PLAIN = ''plain''"
| "formatConstToName MARKDOWN = ''markdown''"
| "formatConstToName MOODLE = ''moodle''"

definition formatNameToConst :: "string \<Rightarrow> FORMAT" where
  "formatNameToConst nm =
     (if nm = [] then MOODLE
      else let n = toLowerCase nm in
        if n = ''moodle'' then MOODLE
        else if n = ''html'' then HTML
        else if n = ''plain'' then PLAIN
        else if n = ''markdown'' then MARKDOWN
        else MOODLE)"

subsection \<open>Placeholders for escaped characters\<close>

definition ESC_PRE :: "(string \<times> string) list" where
  "ESC_PRE =
     [([BSL, CHR '':''], ''&&058;''),
      ([BSL, CHR ''#''], ''&&035;''),
      ([BSL, CHR ''=''], ''&&061;''),
      ([BSL, CHR ''{''], ''&&123;''),
      ([BSL, CHR ''}''], ''&&125;''),
      ([BSL, CHR ''~''], ''&&126;''),
      ([BSL, CHR ''n''], ''&&010'')]"

definition ESC_POST :: "(string \<times> string) list" where
  \<comment> \<open>each placeholder with \<^verbatim>\<open>k.slice(1)\<close> of its key\<close>
  "ESC_POST = map (\<lambda>(k, v). (v, drop 1 k)) ESC_PRE"

definition replaceEach :: "(string \<times> string) list \<Rightarrow> string \<Rightarrow> string" where
  \<comment> \<open>the loop over the entries of a table, one global replacement for each\<close>
  "replaceEach table s = foldl (\<lambda>acc (from, to). replaceAll from to acc) s table"

definition escapedcharPre :: "string \<Rightarrow> string" where
  "escapedcharPre s =
     (if s = [] then s
      else replaceAll ''&&092;'' [BSL] (replaceEach ESC_PRE (replaceAll [BSL, BSL] ''&&092;'' s)))"

definition escapedcharPost :: "string \<Rightarrow> string" where
  "escapedcharPost s = (if s = [] then s else replaceEach ESC_POST s)"

definition repchar :: "string \<Rightarrow> string" where
  "repchar s =
     replaceAll [CR] []
      (replaceAll [NL] [BSL, CHR ''n'']
        (replaceAll '':'' [BSL, CHR '':'']
          (replaceAll ''}'' [BSL, CHR ''}'']
            (replaceAll ''{'' [BSL, CHR ''{'']
              (replaceAll ''~'' [BSL, CHR ''~'']
                (replaceAll ''='' [BSL, CHR ''='']
                  (replaceAll ''#'' [BSL, CHR ''#'']
                    (replaceAll [BSL] [BSL, BSL] s))))))))"


subsection \<open>Numbers\<close>

text \<open>
  A number of the script is kept as the exact value its decimal numeral denotes, or as one
  of the three values that are not finite; \<open>Null\<close> is what a copy through JSON leaves in
  the place of those three. A value too large for a double is an infinity, as in the
  script; the rounding of the values in range to the nearest double is not part of the
  model.
\<close>

datatype number = Fin rat | NaN | PosInf | NegInf | Null

definition overflowLimit :: rat where
  \<comment> \<open>\<open>2\<^sup>1\<^sup>0\<^sup>2\<^sup>4 - 2\<^sup>9\<^sup>7\<^sup>0\<close>, half way from the largest double to \<open>2\<^sup>1\<^sup>0\<^sup>2\<^sup>4\<close>\<close>
  "overflowLimit = 179769313486231580793728971405303415079934132710037826936173778980444968292764750946649017977587207096330286416692887910946555547851940402630657488671505820681908902000708383676273854845817711531764475730270069855571366959622842914819860834936475292719074168444365510704342711559699508093042880177904174497792"

definition toDouble :: "rat \<Rightarrow> number" where
  \<comment> \<open>from the limit on, a value rounds to an infinity\<close>
  "toDouble v =
     (if overflowLimit \<le> v then PosInf
      else if v \<le> - overflowLimit then NegInf
      else Fin v)"

definition digitsVal :: "string \<Rightarrow> nat" where
  "digitsVal ds = foldl (\<lambda>a c. 10 * a + (of_char c - 48)) 0 ds"

definition exponentPart :: "string \<Rightarrow> int" where
  \<comment> \<open>the exponent of a numeral, 0 where the text has no complete exponent\<close>
  "exponentPart r =
     (case r of
        [] \<Rightarrow> 0
      | e # r1 \<Rightarrow>
          if e = CHR ''e'' \<or> e = CHR ''E'' then
            (let neg = startsWith r1 ''-'';
                 r2 = (if startsWith r1 ''-'' \<or> startsWith r1 ''+'' then drop 1 r1 else r1);
                 ds = takeWhile isDigit r2
             in if ds = [] then 0 else if neg then - int (digitsVal ds) else int (digitsVal ds))
          else 0)"

definition parseFloat :: "string \<Rightarrow> number" where
  \<comment> \<open>the longest decimal numeral at the start of the text, after leading white space\<close>
  "parseFloat s =
     (let s1 = dropWhile isSpace s;
          neg = startsWith s1 ''-'';
          s2 = (if startsWith s1 ''-'' \<or> startsWith s1 ''+'' then drop 1 s1 else s1)
      in if startsWith s2 ''Infinity'' then (if neg then NegInf else PosInf)
         else
           (let ip = takeWhile isDigit s2;
                r1 = dropWhile isDigit s2;
                fp = (if startsWith r1 ''.'' then takeWhile isDigit (drop 1 r1) else []);
                r2 = (if startsWith r1 ''.'' then dropWhile isDigit (drop 1 r1) else r1)
            in if ip = [] \<and> fp = [] then NaN
               else
                 (let ex = exponentPart r2;
                      m = of_nat (digitsVal ip) + of_nat (digitsVal fp) / 10 ^ length fp;
                      v = (if 0 \<le> ex then m * 10 ^ nat ex else m / 10 ^ nat (- ex))
                  in toDouble (if neg then - v else v))))"

definition isFinite :: "number \<Rightarrow> bool" where
  "isFinite x = (case x of Fin v \<Rightarrow> True | Null \<Rightarrow> True | _ \<Rightarrow> False)"

definition divideBy :: "number \<Rightarrow> rat \<Rightarrow> number" where
  \<comment> \<open>\<^verbatim>\<open>x / c\<close> for a positive constant \<open>c\<close>\<close>
  "divideBy x c = (case x of Fin v \<Rightarrow> Fin (v / c) | Null \<Rightarrow> Fin 0 | _ \<Rightarrow> x)"

definition multiplyBy :: "number \<Rightarrow> rat \<Rightarrow> number" where
  \<comment> \<open>\<^verbatim>\<open>x * c\<close> for a positive constant \<open>c\<close>\<close>
  "multiplyBy x c = (case x of Fin v \<Rightarrow> toDouble (v * c) | Null \<Rightarrow> Fin 0 | _ \<Rightarrow> x)"

definition subtractFrom :: "rat \<Rightarrow> number \<Rightarrow> number" where
  \<comment> \<open>\<^verbatim>\<open>a - y\<close> for a finite \<open>a\<close>\<close>
  "subtractFrom a y =
     (case y of
        Fin v \<Rightarrow> toDouble (a - v)
      | Null \<Rightarrow> Fin a
      | PosInf \<Rightarrow> NegInf
      | NegInf \<Rightarrow> PosInf
      | NaN \<Rightarrow> NaN)"

subsection \<open>Text with a format\<close>

record TextWithFormat =
  "text" :: string
  format :: FORMAT

definition parseTextWithFormat :: "string \<Rightarrow> FORMAT \<Rightarrow> TextWithFormat" where
  \<comment> \<open>the test \<^verbatim>\<open>if (fmtConst)\<close> asks whether the text of the constant is empty\<close>
  "parseTextWithFormat txt defaultFormat =
     (if txt = [] then \<lparr>text = [], format = defaultFormat\<rparr>
      else
        (let result =
               (if startsWith txt ''[''
                then (case indexOf txt '']'' of
                        None \<Rightarrow> \<lparr>text = [], format = defaultFormat\<rparr>
                      | Some close \<Rightarrow>
                          if 0 < close
                          then (let fmtConst = formatNameToConst (slice txt 1 close)
                                in if formatConstToName fmtConst \<noteq> []
                                   then \<lparr>text = drop (close + 1) txt, format = fmtConst\<rparr>
                                   else \<lparr>text = [], format = defaultFormat\<rparr>)
                          else \<lparr>text = [], format = defaultFormat\<rparr>)
                else \<lparr>text = [], format = defaultFormat\<rparr>);
             result = (if text result = [] then result\<lparr>text := txt\<rparr> else result)
         in result\<lparr>text := escapedcharPost (trim (text result))\<rparr>))"

definition splitTrueFalseComment ::
  "string \<Rightarrow> FORMAT \<Rightarrow> TextWithFormat \<times> TextWithFormat \<times> TextWithFormat" where
  \<comment> \<open>\<^verbatim>\<open>split\<close> always gives a first piece\<close>
  "splitTrueFalseComment ans defaultFormat =
     (let bits = take 3 (split ''#'' ans)
      in (parseTextWithFormat (trim (case bits of [] \<Rightarrow> [] | b # bs \<Rightarrow> b)) defaultFormat,
          (if 1 < length bits then parseTextWithFormat (trim (bits ! 1)) defaultFormat
           else \<lparr>text = [], format = defaultFormat\<rparr>),
          (if 2 < length bits then parseTextWithFormat (trim (bits ! 2)) defaultFormat
           else \<lparr>text = [], format = defaultFormat\<rparr>)))"

definition commentParser :: "string \<Rightarrow> FORMAT \<Rightarrow> TextWithFormat \<times> TextWithFormat" where
  "commentParser ans defaultFormat =
     (let bits = take 2 (split ''#'' ans)
      in (parseTextWithFormat (trim (case bits of [] \<Rightarrow> [] | b # bs \<Rightarrow> b)) defaultFormat,
          (if 1 < length bits then parseTextWithFormat (trim (bits ! 1)) defaultFormat
           else \<lparr>text = [], format = defaultFormat\<rparr>)))"

definition parseWeight :: "string \<Rightarrow> number option \<times> string" where
  \<comment> \<open>the pattern \<^verbatim>\<open>^%\-?([0-9]{1,2})(?:\.([0-9]*))?%\<close>; the pair is \<^verbatim>\<open>weight\<close>
      (absent for \<^verbatim>\<open>null\<close>) and \<^verbatim>\<open>rest\<close>\<close>
  "parseWeight answerStr =
     (if startsWith answerStr ''%'' then
        (let r1 = drop 1 answerStr;
             r2 = (if startsWith r1 ''-'' then drop 1 r1 else r1);
             m1 = takeWhile isDigit r2;
             r3 = dropWhile isDigit r2
         in if length m1 = 1 \<or> length m1 = 2 then
              (if startsWith r3 ''%'' then
                 (Some (divideBy (parseFloat m1) 100), drop 1 r3)
               else if startsWith r3 ''.'' then
                 (let m2 = takeWhile isDigit (drop 1 r3);
                      r4 = dropWhile isDigit (drop 1 r3)
                  in if startsWith r4 ''%'' then
                       (Some (divideBy (parseFloat (m1 @ (if m2 \<noteq> [] then ''.'' @ m2 else []))) 100),
                        drop 1 r4)
                     else (None, answerStr))
               else (None, answerStr))
            else (None, answerStr))
      else (None, answerStr))"

subsection \<open>Identifier and tags in the comment lines\<close>

fun metaRun :: "(char \<Rightarrow> bool) \<Rightarrow> string \<Rightarrow> string list \<times> string" where
  \<comment> \<open>the greedy run of \<^verbatim>\<open>(?:\\\]|[^\]...])+\<close>: the pieces taken and what is left\<close>
  "metaRun ok (c # d # cs) =
     (if c = BSL \<and> d = CHR '']'' then (let (ts, r) = metaRun ok cs in ([c, d] # ts, r))
      else if ok c then (let (ts, r) = metaRun ok (d # cs) in ([c] # ts, r))
      else ([], c # d # cs))"
| "metaRun ok [c] = (if ok c then ([[c]], []) else ([], [c]))"
| "metaRun ok [] = ([], [])"

fun lastEscape :: "string list \<Rightarrow> nat option" where
  "lastEscape [] = None"
| "lastEscape (t # ts) =
     (case lastEscape ts of
        Some i \<Rightarrow> Some (Suc i)
      | None \<Rightarrow> if t = [BSL, CHR '']''] then Some 0 else None)"

definition metaMatch :: "(char \<Rightarrow> bool) \<Rightarrow> string \<Rightarrow> (string \<times> string) option" where
  \<comment> \<open>the run and the closing bracket: the capture and the text after the match. When no
      bracket closes the greedy run, the match backs up to the last escaped bracket of the
      run, whose backslash then ends the capture\<close>
  "metaMatch ok s =
     (let (ts, r) = metaRun ok s
      in if ts \<noteq> [] \<and> startsWith r '']'' then Some (concat ts, drop 1 r)
         else (case lastEscape ts of
                 None \<Rightarrow> None
               | Some i \<Rightarrow> Some (concat (take i ts) @ [BSL], concat (drop (Suc i) ts) @ r)))"

definition idChar :: "char \<Rightarrow> bool" where
  "idChar c = (c \<noteq> CHR '']'' \<and> \<not> isCntrl c)"

definition tagChar :: "char \<Rightarrow> bool" where
  "tagChar c = (c \<noteq> CHR '']'' \<and> c \<noteq> CHR ''<'' \<and> c \<noteq> CHR ''>'' \<and> c \<noteq> CHR 0x60 \<and> \<not> isCntrl c)"

definition unescapeBracket :: "string \<Rightarrow> string" where
  \<comment> \<open>\<^verbatim>\<open>m[1].replace(/\\\]/g, ']').trim()\<close>\<close>
  "unescapeBracket cap = trim (replaceAll [BSL, CHR '']''] '']'' cap)"

fun findId :: "string \<Rightarrow> string option" where
  \<comment> \<open>the first match of the identifier pattern\<close>
  "findId [] = None"
| "findId (c # cs) =
     (if startsWith (c # cs) ''[id:''
      then (case metaMatch idChar (drop 4 (c # cs)) of
              Some (cap, r) \<Rightarrow> Some cap
            | None \<Rightarrow> findId cs)
      else findId cs)"

fun findTags :: "nat \<Rightarrow> string \<Rightarrow> string list" where
  \<comment> \<open>the loop of \<^verbatim>\<open>tagRe.exec\<close>; the first argument counts the characters still
      to pass before \<^verbatim>\<open>lastIndex\<close>\<close>
  "findTags k [] = []"
| "findTags (Suc k) (c # cs) = findTags k cs"
| "findTags 0 (c # cs) =
     (if startsWith (c # cs) ''[tag:''
      then (case metaMatch tagChar (drop 5 (c # cs)) of
              Some (cap, r) \<Rightarrow> unescapeBracket cap # findTags (length cs - length r) cs
            | None \<Rightarrow> findTags 0 cs)
      else findTags 0 cs)"

definition extractIdnumberAndTags :: "string \<Rightarrow> string \<times> string list" where
  "extractIdnumberAndTags commentBlock =
     ((case findId commentBlock of None \<Rightarrow> [] | Some cap \<Rightarrow> unescapeBracket cap),
      findTags 0 commentBlock)"


section \<open>Questions\<close>

text \<open>
  A question object has the fields of \<^verbatim>\<open>defaultQuestion()\<close> and the fields of its
  kind, which are the arguments of the \<open>variant\<close>. The fields that the parser sets to a
  constant for a kind (\<^verbatim>\<open>defaultmark\<close>, \<^verbatim>\<open>answernumbering\<close>, \<^verbatim>\<open>penalty\<close>
  and the settings of an essay) are not repeated. \<open>Other\<close> is an object whose
  \<^verbatim>\<open>qtype\<close> is none of the eight; only a caller of the exporter can supply it.
  The types of the tags and of the parts of a kind are left open: in a \<open>Question\<close> they
  are the values themselves, in the cell of a store they are the addresses of the parts.
\<close>

datatype error = Error string

datatype answer_value = Txt string | Num number

datatype tolerance_value = Tol number | NoTol

record Answer =
  answer :: answer_value
  answerformat :: "FORMAT option"
  tolerance :: "tolerance_value option"
  fraction :: number
  feedback :: string
  feedbackformat :: FORMAT

record Subquestion =
  subquestiontext :: string
  subquestiontextformat :: FORMAT
  answertext :: string

datatype ('answers, 'subquestions, 'feedback) variantOf =
    Category string
  | Description
  | Essay
  | Multichoice bool 'answers
  | Match 'subquestions
  | Truefalse bool 'feedback 'feedback
  | Shortanswer 'answers
  | Numerical 'answers
  | Other string

record ('tags, 'variant) QuestionOf =
  qid :: "string option"
  name :: string
  questiontext :: string
  questiontextformat :: FORMAT
  generalfeedback :: string
  generalfeedbackformat :: FORMAT
  idnumber :: string
  tags :: 'tags
  variant :: 'variant

type_synonym variant = "(Answer list, Subquestion list, TextWithFormat) variantOf"

type_synonym Question = "(string list, variant) QuestionOf"

fun qtype :: "variant \<Rightarrow> string" where
  "qtype (Category c) = ''category''"
| "qtype Description = ''description''"
| "qtype Essay = ''essay''"
| "qtype (Multichoice single answers) = ''multichoice''"
| "qtype (Match subquestions) = ''match''"
| "qtype (Truefalse correctanswer feedbacktrue feedbackfalse) = ''truefalse''"
| "qtype (Shortanswer answers) = ''shortanswer''"
| "qtype (Numerical answers) = ''numerical''"
| "qtype (Other t) = t"

definition defaultQuestion :: "variant \<Rightarrow> Question" where
  "defaultQuestion v =
     \<lparr>qid = None, name = [], questiontext = [], questiontextformat = MOODLE,
      generalfeedback = [], generalfeedbackformat = MOODLE, idnumber = [], tags = [],
      variant = v\<rparr>"

section \<open>Parser\<close>

definition nonEmptyParts :: "string \<Rightarrow> string \<Rightarrow> string list" where
  \<comment> \<open>\<^verbatim>\<open>s.split(sep).map(s=>s.trim()).filter(Boolean)\<close>\<close>
  "nonEmptyParts sep s = filter (\<lambda>x. x \<noteq> []) (map trim (split sep s))"

definition separateComments :: "string list \<Rightarrow> string \<times> string list" where
  \<comment> \<open>the comment lines gathered, and the lines with a blank in the place of each\<close>
  "separateComments lns =
     (concat (map (\<lambda>ln. if startsWith (trim ln) ''//'' then trim ln @ [NL] else []) lns),
      map (\<lambda>ln. if startsWith (trim ln) ''//'' then '' '' else ln) lns)"

definition extractName :: "string \<Rightarrow> string \<times> string" where
  \<comment> \<open>the name between the leading pair of double colons, and the text after it\<close>
  "extractName txt =
     (if startsWith txt ''::''
      then (case indexOfFrom txt ''::'' 2 of
              None \<Rightarrow> ([], txt)
            | Some pos \<Rightarrow>
                (let nm = slice txt 2 pos
                 in (if nm \<noteq> [] then escapedcharPost nm else [], trim (drop (pos + 2) txt))))
      else ([], txt))"

definition endsWithBrace :: "string \<Rightarrow> bool" where
  \<comment> \<open>the test of \<^verbatim>\<open>/\}\s*$/\<close>\<close>
  "endsWithBrace txt = startsWith (dropWhile isSpace (rev txt)) ''}''"

definition braces :: "string \<Rightarrow> error + bool \<times> string \<times> string" where
  \<comment> \<open>\<^verbatim>\<open>description\<close>, \<^verbatim>\<open>answertext\<close> and \<^verbatim>\<open>questiontext\<close>\<close>
  "braces txt =
     (case (indexOf txt ''{'', lastIndexOf txt ''}'') of
        (None, None) \<Rightarrow> Inr (True, [], txt)
      | (None, Some answerFinish) \<Rightarrow> Inl (Error (''Brace error in question: '' @ escapedcharPost txt))
      | (Some answerStart, None) \<Rightarrow> Inl (Error (''Brace error in question: '' @ escapedcharPost txt))
      | (Some answerStart, Some answerFinish) \<Rightarrow>
          if answerFinish < answerStart
          then Inl (Error (''Brace error in question: '' @ escapedcharPost txt))
          else Inr (False,
                    trim (slice txt (answerStart + 1) answerFinish),
                    (if endsWithBrace txt
                     then take answerStart txt @ drop (answerFinish + 1) txt
                     else take answerStart txt @ ''_____'' @ drop (answerFinish + 1) txt)))"

definition splitGeneralFeedback :: "string \<Rightarrow> string \<times> string" where
  \<comment> \<open>\<^verbatim>\<open>generalfeedback\<close> and the \<^verbatim>\<open>answertext\<close> that is left\<close>
  "splitGeneralFeedback atext =
     (case lastIndexOf atext ''####'' of
        None \<Rightarrow> ([], atext)
      | Some gfidx \<Rightarrow> (drop (gfidx + 4) atext, trim (take gfidx atext)))"

function stripTags :: "string \<Rightarrow> string" where
  \<comment> \<open>\<^verbatim>\<open>s.replace(/<[^>]*>/g, '')\<close>\<close>
  "stripTags [] = []"
| "stripTags (c # cs) =
     (if c = CHR ''<'' \<and> CHR ''>'' \<in> set cs
      then stripTags (drop 1 (dropWhile (\<lambda>x. x \<noteq> CHR ''>'') cs))
      else c # stripTags cs)"
  by pat_completeness auto
termination
  by (relation "measure length")
    (auto simp: less_Suc_eq_le intro: order_trans [OF diff_le_self length_dropWhile_le])

definition determineQtype :: "string \<Rightarrow> string" where
  \<comment> \<open>the value of \<^verbatim>\<open>q.qtype\<close> for an answer text that is not empty\<close>
  "determineQtype atext =
     (if startsWith atext ''#'' then ''numerical''
      else if includesStr atext ''~'' then ''multichoice''
      else if includesStr atext ''='' \<and> includesStr atext ''->'' then ''match''
      else
        (let tfcheck = toUpperCase (trim
               (if includesStr atext ''#''
                then (case take 1 (split ''#'' atext) of [] \<Rightarrow> [] | b # bs \<Rightarrow> b)
                else atext))
         in if tfcheck \<in> set [''T'', ''TRUE'', ''F'', ''FALSE''] then ''truefalse''
            else ''shortanswer''))"

definition multichoiceAnswer :: "FORMAT \<Rightarrow> string \<Rightarrow> Answer" where
  "multichoiceAnswer fmt part =
     (let (weight, rest) =
            (if startsWith part ''='' then (Fin 1, drop 1 part)
             else (case parseWeight part of
                     (Some w, r) \<Rightarrow> (w, r)
                   | (None, r) \<Rightarrow> (Fin 0, part)));
          (ans, fb) = commentParser rest fmt
      in \<lparr>answer = Txt (text ans), answerformat = Some (format ans), tolerance = None,
          fraction = weight, feedback = text fb, feedbackformat = format fb\<rparr>)"

fun matchPairs :: "FORMAT \<Rightarrow> string list \<Rightarrow> error + Subquestion list" where
  "matchPairs fmt [] = Inr []"
| "matchPairs fmt (p # ps) =
     (case indexOf p ''->'' of
        None \<Rightarrow> Inl (Error ''Matching pair must contain ->'')
      | Some marker \<Rightarrow>
          (let leftParsed = parseTextWithFormat (take marker p) fmt;
               sq = \<lparr>subquestiontext = text leftParsed,
                     subquestiontextformat = format leftParsed,
                     answertext = escapedcharPost (trim (drop (marker + 2) p))\<rparr>
           in case matchPairs fmt ps of Inl e \<Rightarrow> Inl e | Inr sqs \<Rightarrow> Inr (sq # sqs)))"

definition shortanswerAnswer :: "FORMAT \<Rightarrow> string \<Rightarrow> Answer" where
  "shortanswerAnswer fmt p =
     (let (weight, rest) =
            (case parseWeight p of (Some w, r) \<Rightarrow> (w, r) | (None, r) \<Rightarrow> (Fin 1, p));
          (ans, fb) = commentParser rest fmt
      in \<lparr>answer = Txt (text ans), answerformat = None, tolerance = None,
          fraction = weight, feedback = text fb, feedbackformat = format fb\<rparr>)"

definition numericalValue :: "string \<Rightarrow> error + number \<times> number" where
  \<comment> \<open>\<^verbatim>\<open>ans\<close> and \<^verbatim>\<open>tol\<close> of one part; two numbers are finite here exactly when
      \<^verbatim>\<open>parseFloat\<close> gave both a value\<close>
  "numericalValue raw =
     (if includesStr raw ''..'' then
        (case map (\<lambda>x. parseFloat (trim x)) (split ''..'' raw) of
           Fin mn # Fin mx # others \<Rightarrow>
             (let ans = divideBy (toDouble (mx + mn)) 2 in Inr (ans, subtractFrom mx ans))
         | _ \<Rightarrow> Inl (Error ''Numerical range must be numbers''))
      else if includesStr raw '':'' then
        (case indexOf raw '':'' of
           None \<Rightarrow> Inl (Error ''Numerical answer and tolerance must be numbers'')
         | Some idx \<Rightarrow>
             (let ans = parseFloat (trim (take idx raw));
                  tol = parseFloat (trim (drop (idx + 1) raw))
              in if \<not> isFinite ans \<or> \<not> isFinite tol
                 then Inl (Error ''Numerical answer and tolerance must be numbers'')
                 else Inr (ans, tol)))
      else
        (let ans = parseFloat (trim raw)
         in if \<not> (isFinite ans \<or> trim raw = ''*'')
            then Inl (Error ''Numerical answer must be a number'')
            else Inr (ans, Fin 0)))"

fun numericalAnswers :: "FORMAT \<Rightarrow> string list \<Rightarrow> error + Answer list" where
  "numericalAnswers fmt [] = Inr []"
| "numericalAnswers fmt (p # ps) =
     (let (weight, rest) =
            (case parseWeight p of (Some w, r) \<Rightarrow> (w, r) | (None, r) \<Rightarrow> (Fin 1, p));
          (ansParsed, fb) = commentParser rest fmt
      in case numericalValue (text ansParsed) of
           Inl e \<Rightarrow> Inl e
         | Inr (ans, tol) \<Rightarrow>
             (case numericalAnswers fmt ps of
                Inl e \<Rightarrow> Inl e
              | Inr others \<Rightarrow>
                  Inr (\<lparr>answer = Num ans, answerformat = None, tolerance = Some (Tol tol),
                        fraction = weight, feedback = text fb, feedbackformat = format fb\<rparr>
                       # others)))"

definition parseNumerical :: "FORMAT \<Rightarrow> string \<Rightarrow> error + Answer list" where
  "parseNumerical fmt atext =
     (let body = drop 1 atext;
          tpos = indexOf body ''~'';
          wrongfeedback = (case tpos of None \<Rightarrow> [] | Some t \<Rightarrow> drop t body);
          body = (case tpos of None \<Rightarrow> body | Some t \<Rightarrow> take t body);
          parts = nonEmptyParts ''='' body
      in if parts = [] then Inl (Error ''Numerical requires answers'')
         else
           (case numericalAnswers fmt parts of
              Inl e \<Rightarrow> Inl e
            | Inr answers \<Rightarrow>
                if wrongfeedback \<noteq> [] then
                  (let (a, fb) = commentParser wrongfeedback fmt
                   in Inr (answers @
                        [\<lparr>answer = Txt ''*'', answerformat = None, tolerance = Some NoTol,
                          fraction = Fin 0, feedback = text fb, feedbackformat = format fb\<rparr>]))
                else Inr answers))"

definition parseAnswers :: "string \<Rightarrow> FORMAT \<Rightarrow> string \<Rightarrow> error + variant" where
  \<comment> \<open>the \<^verbatim>\<open>switch\<close> over \<^verbatim>\<open>q.qtype\<close>\<close>
  "parseAnswers qt fmt atext =
     (if qt = ''multichoice'' then
        (let parts = nonEmptyParts ''~'' (replaceAll ''='' ''~='' atext)
         in if length parts < 2 then Inl (Error ''Multiple choice requires at least 2 answers'')
            else Inr (Multichoice (includesStr atext ''='') (map (multichoiceAnswer fmt) parts)))
      else if qt = ''match'' then
        (let parts = nonEmptyParts ''='' atext
         in if length parts < 2 then Inl (Error ''Matching requires at least 2 pairs'')
            else (case matchPairs fmt parts of Inl e \<Rightarrow> Inl e | Inr sqs \<Rightarrow> Inr (Match sqs)))
      else if qt = ''truefalse'' then
        (let (ans, wrongfb, rightfb) = splitTrueFalseComment atext fmt;
             isTrue = (toUpperCase (text ans) \<in> set [''T'', ''TRUE''])
         in Inr (Truefalse isTrue (if isTrue then rightfb else wrongfb)
                                  (if isTrue then wrongfb else rightfb)))
      else if qt = ''shortanswer'' then
        (let parts = nonEmptyParts ''='' atext
         in if parts = [] then Inl (Error ''Shortanswer requires at least 1 answer'')
            else Inr (Shortanswer (map (shortanswerAnswer fmt) parts)))
      else if qt = ''numerical'' then
        (case parseNumerical fmt atext of Inl e \<Rightarrow> Inl e | Inr answers \<Rightarrow> Inr (Numerical answers))
      else Inl (Error ''Unhandled qtype''))"

definition parseMain :: "string \<Rightarrow> string \<Rightarrow> string \<Rightarrow> error + Question" where
  \<comment> \<open>\<^verbatim>\<open>parseQuestion\<close> from the search for the braces on: the comment lines, the
      name found so far and the text\<close>
  "parseMain comments nm txt =
     (case braces txt of
        Inl e \<Rightarrow> Inl e
      | Inr (description, atext0, questiontext0) \<Rightarrow>
          (let (generalfeedback0, atext) = splitGeneralFeedback atext0;
               qtParsed = parseTextWithFormat questiontext0 MOODLE;
               gfParsed = parseTextWithFormat generalfeedback0 (format qtParsed);
               nm1 = (if nm = []
                      then (let short = take 30 (stripTags (text qtParsed))
                            in if short = [] then ''Question'' else short)
                      else nm);
               meta = extractIdnumberAndTags comments;
               q = \<lambda>v. \<lparr>qid = None, name = nm1, questiontext = text qtParsed,
                         questiontextformat = format qtParsed,
                         generalfeedback = text gfParsed,
                         generalfeedbackformat = format gfParsed,
                         idnumber = fst meta, tags = snd meta, variant = v\<rparr>
           in if description then Inr (q Description)
              else if atext = [] then Inr (q Essay)
              else (case parseAnswers (determineQtype atext) (format qtParsed) atext of
                      Inl e \<Rightarrow> Inl e
                    | Inr v \<Rightarrow> Inr (q v))))"

definition parseQuestion :: "string list \<Rightarrow> error + Question option" where
  "parseQuestion lns =
     (let (comments, work) = separateComments lns;
          txt = trim (join [NL] work)
      in if txt = [] then Inr None
         else
           (let txt = escapedcharPre txt
            in if startsWith txt ''$CATEGORY:''
               then Inr (Some (defaultQuestion
                      (Category (trim (dropWhile isSpace (drop 10 txt))))))
               else
                 (let (nm, txt) = extractName txt
                  in case parseMain comments nm txt of
                       Inl e \<Rightarrow> Inl e
                     | Inr q \<Rightarrow> Inr (Some q))))"

fun normalizeNewlines :: "string \<Rightarrow> string" where
  \<comment> \<open>\<^verbatim>\<open>input.replace(/\r\n?/g, '\n')\<close>\<close>
  "normalizeNewlines (c # d # cs) =
     (if c = CR \<and> d = NL then NL # normalizeNewlines cs
      else if c = CR then NL # normalizeNewlines (d # cs)
      else c # normalizeNewlines (d # cs))"
| "normalizeNewlines [c] = (if c = CR then [NL] else [c])"
| "normalizeNewlines [] = []"

definition flush :: "string list \<Rightarrow> Question list \<Rightarrow> error + Question list" where
  \<comment> \<open>the questions after the buffer has been parsed\<close>
  "flush buf questions =
     (case parseQuestion buf of
        Inl e \<Rightarrow> Inl e
      | Inr None \<Rightarrow> Inr questions
      | Inr (Some q) \<Rightarrow> Inr (questions @ [q]))"

fun parseLines :: "string list \<Rightarrow> string list \<Rightarrow> Question list \<Rightarrow> error + Question list" where
  \<comment> \<open>the loop over the lines, with \<^verbatim>\<open>buf\<close> and \<^verbatim>\<open>questions\<close>, and the last flush\<close>
  "parseLines [] buf questions = (if buf \<noteq> [] then flush buf questions else Inr questions)"
| "parseLines (line # rest) buf questions =
     (if list_all isSpace line
      then (if buf \<noteq> []
            then (case flush buf questions of
                    Inl e \<Rightarrow> Inl e
                  | Inr questions' \<Rightarrow> parseLines rest [] questions')
            else parseLines rest buf questions)
      else parseLines rest (buf @ [line]) questions)"

definition parseGift :: "string \<Rightarrow> error + Question list" where
  "parseGift input = parseLines (split [NL] (normalizeNewlines input)) [] []"


section \<open>Exporter\<close>

subsection \<open>Numbers as text\<close>

function natToString :: "nat \<Rightarrow> string" where
  "natToString n =
     (if n < 10 then [''0123456789'' ! n]
      else natToString (n div 10) @ [''0123456789'' ! (n mod 10)])"
  by pat_completeness auto
termination
  by (relation "measure id") auto

fun fractionDigits :: "nat \<Rightarrow> nat \<Rightarrow> nat \<Rightarrow> string" where
  \<comment> \<open>the digits of \<open>n / d\<close> after the point, at most as many as the first argument\<close>
  "fractionDigits 0 n d = []"
| "fractionDigits (Suc k) n d =
     (if n = 0 then []
      else (''0123456789'' ! ((10 * n) div d)) # fractionDigits k ((10 * n) mod d) d)"

definition numberToString :: "number \<Rightarrow> string" where
  \<comment> \<open>\<^verbatim>\<open>`${x}`\<close>: the decimal numeral of the value, which is what the script prints
      for a value of at most 17 digits between \<open>10\<^sup>-\<^sup>6\<close> and \<open>10\<^sup>2\<^sup>1\<close>\<close>
  "numberToString x =
     (case x of
        NaN \<Rightarrow> ''NaN''
      | PosInf \<Rightarrow> ''Infinity''
      | NegInf \<Rightarrow> ''-Infinity''
      | Null \<Rightarrow> ''null''
      | Fin v \<Rightarrow>
          (let (a, b) = quotient_of v;
               n = nat \<bar>a\<bar>;
               d = nat b;
               fr = fractionDigits 17 (n mod d) d
           in (if a < 0 then ''-'' else []) @ natToString (n div d)
              @ (if fr = [] then [] else ''.'' @ fr)))"

definition falsy :: "number \<Rightarrow> bool" where
  \<comment> \<open>\<^verbatim>\<open>!x\<close>\<close>
  "falsy x = (x = Fin 0 \<or> x = NaN \<or> x = Null)"

definition orOne :: "number \<Rightarrow> number" where
  \<comment> \<open>\<^verbatim>\<open>x ?? 1\<close>\<close>
  "orOne x = (if x = Null then Fin 1 else x)"

subsection \<open>The copy of a question\<close>

definition jsonNumber :: "number \<Rightarrow> number" where
  \<comment> \<open>a number written to JSON and read back\<close>
  "jsonNumber x = (case x of Fin v \<Rightarrow> Fin v | _ \<Rightarrow> Null)"

definition cloneAnswer :: "Answer \<Rightarrow> Answer" where
  "cloneAnswer a =
     a\<lparr>answer := (case answer a of Txt t \<Rightarrow> Txt t | Num x \<Rightarrow> Num (jsonNumber x)),
       tolerance := (case tolerance a of
                       Some (Tol x) \<Rightarrow> Some (Tol (jsonNumber x))
                     | t \<Rightarrow> t),
       fraction := jsonNumber (fraction a)\<rparr>"

definition clone :: "Question \<Rightarrow> Question" where
  \<comment> \<open>\<^verbatim>\<open>JSON.parse(JSON.stringify(obj))\<close>: a new object, equal to the old one but for
      the numbers that JSON cannot write\<close>
  "clone q =
     q\<lparr>variant := (case variant q of
                     Multichoice single answers \<Rightarrow> Multichoice single (map cloneAnswer answers)
                   | Shortanswer answers \<Rightarrow> Shortanswer (map cloneAnswer answers)
                   | Numerical answers \<Rightarrow> Numerical (map cloneAnswer answers)
                   | v \<Rightarrow> v)\<rparr>"

subsection \<open>Writers\<close>

definition writeQuestionText :: "string \<Rightarrow> FORMAT \<Rightarrow> FORMAT \<Rightarrow> string" where
  "writeQuestionText txt fmt defaultFormat =
     (if txt \<noteq> [] \<and> formatConstToName fmt \<noteq> [] \<and> fmt \<noteq> defaultFormat
      then ''['' @ formatConstToName fmt @ '']'' else [])
     @ repchar txt"

definition writeName :: "string \<Rightarrow> string" where
  "writeName nm = ''::'' @ repchar nm @ ''::''"

definition valueOrEmpty :: "answer_value \<Rightarrow> string" where
  \<comment> \<open>\<^verbatim>\<open>v || ''\<close> as text\<close>
  "valueOrEmpty v = (case v of Txt t \<Rightarrow> t | Num x \<Rightarrow> if falsy x then [] else numberToString x)"

definition valueToString :: "answer_value \<Rightarrow> string" where
  \<comment> \<open>\<^verbatim>\<open>`${v}`\<close>\<close>
  "valueToString v = (case v of Txt t \<Rightarrow> t | Num x \<Rightarrow> numberToString x)"

definition repcharValue :: "answer_value \<Rightarrow> string" where
  \<comment> \<open>\<^verbatim>\<open>repchar(v)\<close>, empty for \<^verbatim>\<open>null\<close>\<close>
  "repcharValue v = (case v of Txt t \<Rightarrow> repchar t | Num x \<Rightarrow> if x = Null then [] else repchar (numberToString x))"

definition toleranceNumber :: "tolerance_value option \<Rightarrow> number" where
  \<comment> \<open>\<^verbatim>\<open>Number(ans.tolerance)\<close>\<close>
  "toleranceNumber t =
     (case t of None \<Rightarrow> NaN | Some NoTol \<Rightarrow> Fin 0 | Some (Tol x) \<Rightarrow> (if x = Null then Fin 0 else x))"

definition writeIdnumberAndTags :: "Question \<Rightarrow> string" where
  "writeIdnumberAndTags q =
     (if qtype (variant q) = ''category'' then []
      else
        (let bits =
               (if idnumber q \<noteq> []
                then [''[id:'' @ replaceAll '']'' [BSL, CHR '']''] (idnumber q) @ '']''] else [])
               @ map (\<lambda>t. ''[tag:'' @ replaceAll '']'' [BSL, CHR '']''] t @ '']'') (tags q)
         in if bits \<noteq> [] then ''// '' @ join '' '' bits @ [NL] else []))"

definition writeGeneralFeedback :: "Question \<Rightarrow> string \<Rightarrow> string" where
  "writeGeneralFeedback q indent =
     (let gf = writeQuestionText (generalfeedback q) (generalfeedbackformat q) (questiontextformat q)
      in if gf = [] then []
         else if indent \<noteq> [] then indent @ ''####'' @ gf @ [NL] else ''####'' @ gf)"

definition writeMultichoiceAnswer :: "Question \<Rightarrow> bool \<Rightarrow> Answer \<Rightarrow> string" where
  "writeMultichoiceAnswer q single ans =
     (let qf = questiontextformat q;
          lead = (if fraction ans = Fin 1 \<and> single then ''=''
                  else if falsy (fraction ans) then ''~''
                  else ''~%'' @ numberToString (multiplyBy (fraction ans) 100) @ ''%'');
          ansText = writeQuestionText (valueOrEmpty (answer ans))
                      (case answerformat ans of None \<Rightarrow> qf | Some f \<Rightarrow> f) qf
      in [TAB] @ lead @ ansText
         @ (if feedback ans \<noteq> []
            then ''#'' @ writeQuestionText (feedback ans) (feedbackformat ans) qf else [])
         @ [NL])"

definition writeShortanswerAnswer :: "Question \<Rightarrow> Answer \<Rightarrow> string" where
  "writeShortanswerAnswer q ans =
     (let weight = multiplyBy (orOne (fraction ans)) 100;
          fb = writeQuestionText (feedback ans) (feedbackformat ans) (questiontextformat q)
      in [TAB] @ ''=%'' @ numberToString weight @ ''%'' @ repcharValue (answer ans) @ ''#'' @ fb @ [NL])"

definition writeNumericalAnswer :: "Question \<Rightarrow> Answer \<Rightarrow> string" where
  "writeNumericalAnswer q ans =
     (let fb = writeQuestionText (feedback ans) (feedbackformat ans) (questiontextformat q)
      in if answer ans \<noteq> Txt ''*'' \<and> answer ans \<noteq> Txt []
         then [TAB] @ ''=%'' @ numberToString (multiplyBy (orOne (fraction ans)) 100) @ ''%''
              @ valueToString (answer ans) @ '':''
              @ numberToString (toleranceNumber (tolerance ans)) @ ''#'' @ fb @ [NL]
         else [TAB] @ ''~#'' @ fb @ [NL])"

definition writeSubquestion :: "Question \<Rightarrow> Subquestion \<Rightarrow> string" where
  "writeSubquestion q sq =
     [TAB] @ ''=''
     @ writeQuestionText (subquestiontext sq) (subquestiontextformat sq) (questiontextformat q)
     @ '' -> '' @ repchar (answertext sq) @ [NL]"

definition writeCopy :: "Question \<Rightarrow> error + string" where
  \<comment> \<open>\<^verbatim>\<open>writeOne\<close> after its first line: the text for the copy \<^verbatim>\<open>q\<close>\<close>
  "writeCopy q =
     (let header = ''// question: '' @ (case qid q of None \<Rightarrow> [] | Some i \<Rightarrow> i)
                   @ ''  name: '' @ name q @ [NL] @ writeIdnumberAndTags q;
          start = writeName (name q) @ writeQuestionText (questiontext q) (questiontextformat q) MOODLE
      in case variant q of
           Category c \<Rightarrow> Inr (header @ ''$CATEGORY: '' @ c @ [NL] @ [NL])
         | Description \<Rightarrow> Inr (header @ start @ [NL])
         | Essay \<Rightarrow> Inr (header @ start @ ''{'' @ writeGeneralFeedback q [] @ ''}'' @ [NL] @ [NL])
         | Truefalse correctanswer feedbacktrue feedbackfalse \<Rightarrow>
             (let rightfb = (if correctanswer then feedbacktrue else feedbackfalse);
                  wrongfb = (if correctanswer then feedbackfalse else feedbacktrue);
                  right = writeQuestionText (text rightfb) (format rightfb) (questiontextformat q);
                  wrong = writeQuestionText (text wrongfb) (format wrongfb) (questiontextformat q)
              in Inr (header @ start @ ''{'' @ repchar (if correctanswer then ''TRUE'' else ''FALSE'')
                      @ (if wrong \<noteq> [] then ''#'' @ wrong else if right \<noteq> [] then ''#'' else [])
                      @ (if right \<noteq> [] then ''#'' @ right else [])
                      @ writeGeneralFeedback q [] @ ''}'' @ [NL] @ [NL]))
         | Multichoice single answers \<Rightarrow>
             Inr (header @ start @ ''{'' @ [NL]
                  @ concat (map (writeMultichoiceAnswer q single) answers)
                  @ writeGeneralFeedback q [TAB] @ ''}'' @ [NL] @ [NL])
         | Shortanswer answers \<Rightarrow>
             Inr (header @ start @ ''{'' @ [NL]
                  @ concat (map (writeShortanswerAnswer q) answers)
                  @ writeGeneralFeedback q [TAB] @ ''}'' @ [NL] @ [NL])
         | Numerical answers \<Rightarrow>
             Inr (header @ start @ ''{#'' @ [NL]
                  @ concat (map (writeNumericalAnswer q) answers)
                  @ writeGeneralFeedback q [TAB] @ ''}'' @ [NL] @ [NL])
         | Match subquestions \<Rightarrow>
             Inr (header @ start @ ''{'' @ [NL]
                  @ concat (map (writeSubquestion q) subquestions)
                  @ writeGeneralFeedback q [TAB] @ ''}'' @ [NL] @ [NL])
         | Other t \<Rightarrow> Inl (Error (''Unsupported qtype in exporter: '' @ t)))"

subsection \<open>Objects\<close>

text \<open>
  The exporter is handed objects of its caller, and an object holds its arrays and its
  nested objects by reference. A store has a cell at each address: the cell of a question
  holds the addresses of its array of tags and of the parts of its kind, the cell of an
  array of answers or of subquestions holds the addresses of its elements. The addresses
  below \<open>fresh\<close> are in use. \<open>seen\<close> records the cells that the writers have read.
\<close>

datatype cell =
    QuestionCell "(nat, (nat, nat, nat) variantOf) QuestionOf"
  | ArrayCell "nat list"
  | TagsCell "string list"
  | AnswerCell Answer
  | SubquestionCell Subquestion
  | TextCell TextWithFormat

record store =
  cells :: "nat \<Rightarrow> cell"
  fresh :: nat
  seen :: "nat list"

definition readTags :: "store \<Rightarrow> nat \<Rightarrow> string list" where
  \<comment> \<open>\<^verbatim>\<open>q.tags\<close>, which counts only where it is an array\<close>
  "readTags st a = (case cells st a of TagsCell ts \<Rightarrow> ts | _ \<Rightarrow> [])"

definition readAnswers :: "store \<Rightarrow> nat \<Rightarrow> Answer list" where
  \<comment> \<open>\<^verbatim>\<open>q.answers || []\<close> with the answer objects it refers to\<close>
  "readAnswers st a =
     (case cells st a of
        ArrayCell rs \<Rightarrow>
          List.map_filter (\<lambda>r. case cells st r of AnswerCell x \<Rightarrow> Some x | _ \<Rightarrow> None) rs
      | _ \<Rightarrow> [])"

definition readSubquestions :: "store \<Rightarrow> nat \<Rightarrow> Subquestion list" where
  \<comment> \<open>\<^verbatim>\<open>q.subquestions || []\<close> with the objects it refers to\<close>
  "readSubquestions st a =
     (case cells st a of
        ArrayCell rs \<Rightarrow>
          List.map_filter (\<lambda>r. case cells st r of SubquestionCell x \<Rightarrow> Some x | _ \<Rightarrow> None) rs
      | _ \<Rightarrow> [])"

definition readText :: "store \<Rightarrow> FORMAT \<Rightarrow> nat \<Rightarrow> TextWithFormat" where
  \<comment> \<open>a feedback object, read as \<^verbatim>\<open>fb?.text || ''\<close> and
      \<^verbatim>\<open>fb?.format || q.questiontextformat\<close>\<close>
  "readText st d a = (case cells st a of TextCell t \<Rightarrow> t | _ \<Rightarrow> \<lparr>text = [], format = d\<rparr>)"

definition arrayCells :: "store \<Rightarrow> nat \<Rightarrow> nat list" where
  \<comment> \<open>the cells read with an array: the array and its elements\<close>
  "arrayCells st a = (case cells st a of ArrayCell rs \<Rightarrow> a # rs | _ \<Rightarrow> [a])"

definition load :: "store \<Rightarrow> nat \<Rightarrow> Question \<times> nat list" where
  \<comment> \<open>the object at an address with all that it refers to, as a value, and the cells read
      for it; a cell that is no question is an object without a \<^verbatim>\<open>qtype\<close>\<close>
  "load st r =
     (case cells st r of
        QuestionCell ob \<Rightarrow>
          (\<lparr>qid = qid ob, name = name ob, questiontext = questiontext ob,
            questiontextformat = questiontextformat ob, generalfeedback = generalfeedback ob,
            generalfeedbackformat = generalfeedbackformat ob, idnumber = idnumber ob,
            tags = readTags st (tags ob),
            variant =
              (case variant ob of
                 Category c \<Rightarrow> Category c
               | Description \<Rightarrow> Description
               | Essay \<Rightarrow> Essay
               | Multichoice single a \<Rightarrow> Multichoice single (readAnswers st a)
               | Match a \<Rightarrow> Match (readSubquestions st a)
               | Truefalse correctanswer t f \<Rightarrow>
                   Truefalse correctanswer (readText st (questiontextformat ob) t)
                     (readText st (questiontextformat ob) f)
               | Shortanswer a \<Rightarrow> Shortanswer (readAnswers st a)
               | Numerical a \<Rightarrow> Numerical (readAnswers st a)
               | Other t \<Rightarrow> Other t)\<rparr>,
           r # tags ob #
             (case variant ob of
                Multichoice single a \<Rightarrow> arrayCells st a
              | Match a \<Rightarrow> arrayCells st a
              | Truefalse correctanswer t f \<Rightarrow> [t, f]
              | Shortanswer a \<Rightarrow> arrayCells st a
              | Numerical a \<Rightarrow> arrayCells st a
              | _ \<Rightarrow> []))
      | _ \<Rightarrow> (defaultQuestion (Other ''undefined''), [r]))"

definition objects :: "store \<Rightarrow> nat \<Rightarrow> Question" where
  "objects st r = fst (load st r)"

definition layout :: "nat \<Rightarrow> Question \<Rightarrow> cell list" where
  \<comment> \<open>the cells of a new object that starts at the address \<open>base\<close>: its tags, its parts,
      and last the question, which refers to them\<close>
  "layout base q =
     (let ob = (\<lambda>v. QuestionCell
                 \<lparr>qid = qid q, name = name q, questiontext = questiontext q,
                  questiontextformat = questiontextformat q, generalfeedback = generalfeedback q,
                  generalfeedbackformat = generalfeedbackformat q, idnumber = idnumber q,
                  tags = base, variant = v\<rparr>);
          array = (\<lambda>n. ArrayCell [base + 1 ..< base + 1 + n])
      in TagsCell (tags q) #
         (case variant q of
            Category c \<Rightarrow> [ob (Category c)]
          | Description \<Rightarrow> [ob Description]
          | Essay \<Rightarrow> [ob Essay]
          | Multichoice single answers \<Rightarrow>
              map AnswerCell answers
              @ [array (length answers), ob (Multichoice single (base + 1 + length answers))]
          | Match subquestions \<Rightarrow>
              map SubquestionCell subquestions
              @ [array (length subquestions), ob (Match (base + 1 + length subquestions))]
          | Truefalse correctanswer feedbacktrue feedbackfalse \<Rightarrow>
              [TextCell feedbacktrue, TextCell feedbackfalse,
               ob (Truefalse correctanswer (base + 1) (base + 2))]
          | Shortanswer answers \<Rightarrow>
              map AnswerCell answers
              @ [array (length answers), ob (Shortanswer (base + 1 + length answers))]
          | Numerical answers \<Rightarrow>
              map AnswerCell answers
              @ [array (length answers), ob (Numerical (base + 1 + length answers))]
          | Other t \<Rightarrow> [ob (Other t)]))"

definition allocate :: "store \<Rightarrow> Question \<Rightarrow> store \<times> nat" where
  \<comment> \<open>new cells for a value, as \<^verbatim>\<open>JSON.parse\<close> makes them, and the address of the
      question\<close>
  "allocate st q =
     (let cs = layout (fresh st) q
      in (st\<lparr>cells := (\<lambda>a. if fresh st \<le> a \<and> a < fresh st + length cs
                              then cs ! (a - fresh st) else cells st a),
              fresh := fresh st + length cs\<rparr>,
          fresh st + length cs - 1))"

definition cloneObject :: "store \<Rightarrow> nat \<Rightarrow> store \<times> nat" where
  \<comment> \<open>\<^verbatim>\<open>clone(question)\<close>: the object is written out as a value and the value is read
      into new cells\<close>
  "cloneObject st r = allocate st (clone (objects st r))"

definition writeOne :: "store \<Rightarrow> nat \<Rightarrow> store \<times> (error + string)" where
  \<comment> \<open>the writer reads the copy \<^verbatim>\<open>q\<close> and nothing else\<close>
  "writeOne st question =
     (let (st1, q) = cloneObject st question;
          (copy, cellsRead) = load st1 q
      in (st1\<lparr>seen := seen st1 @ cellsRead\<rparr>, writeCopy copy))"

fun exportLoop :: "store \<Rightarrow> nat list \<Rightarrow> string list \<Rightarrow> store \<times> (error + string list)" where
  \<comment> \<open>the loop of \<^verbatim>\<open>exportGift\<close> with the array \<^verbatim>\<open>out\<close>\<close>
  "exportLoop st [] out = (st, Inr out)"
| "exportLoop st (q # questions) out =
     (case writeOne st q of
        (st1, Inl e) \<Rightarrow> (st1, Inl e)
      | (st1, Inr written) \<Rightarrow> exportLoop st1 questions (out @ [written]))"

definition exportGift :: "store \<Rightarrow> nat list \<Rightarrow> store \<times> (error + string)" where
  "exportGift st questions =
     (case exportLoop st questions [] of
        (st1, Inl e) \<Rightarrow> (st1, Inl e)
      | (st1, Inr out) \<Rightarrow> (st1, Inr (join [NL] out)))"

definition emptyStore :: store where
  "emptyStore = \<lparr>cells = (\<lambda>a. TagsCell []), fresh = 0, seen = []\<rparr>"

fun allocateAll :: "store \<Rightarrow> Question list \<Rightarrow> store \<times> nat list" where
  \<comment> \<open>the objects of an array of questions, one after the other\<close>
  "allocateAll st [] = (st, [])"
| "allocateAll st (q # qs) =
     (let (st1, r) = allocate st q;
          (st2, rs) = allocateAll st1 qs
      in (st2, r # rs))"

definition exportQuestions :: "Question list \<Rightarrow> error + string" where
  \<comment> \<open>\<^verbatim>\<open>exportGift\<close> called with a new array of these questions\<close>
  "exportQuestions qs = (let (st, rs) = allocateAll emptyStore qs in snd (exportGift st rs))"


section \<open>Notions used in the statements\<close>

subsection \<open>Replacement on a text made of pieces\<close>

text \<open>
  A chain of global replacements is followed on a text that is a concatenation of pieces,
  one for each character: the pieces of the reserved characters are kept in a table, and
  every other character is its own piece. A replacement acts piece by piece when each piece
  of the table is the pattern itself or cannot take part in a match, and the pattern does
  not occur in the text of the other characters.
\<close>

fun clash :: "string \<Rightarrow> string \<Rightarrow> bool" where
  \<comment> \<open>the two texts differ at a position that both have\<close>
  "clash [] u = False"
| "clash (p # ps) [] = False"
| "clash (p # ps) (c # cs) = (p \<noteq> c \<or> clash ps cs)"

fun inert :: "string \<Rightarrow> string \<Rightarrow> bool" where
  \<comment> \<open>no match of the pattern starts inside the piece\<close>
  "inert p [] = True"
| "inert p (c # cs) = (clash p (c # cs) \<and> inert p cs)"

definition tokOf :: "(char \<times> string) list \<Rightarrow> char \<Rightarrow> string" where
  "tokOf m c = (case map_of m c of Some t \<Rightarrow> t | None \<Rightarrow> [c])"

definition stepTok :: "(char \<times> string) list \<Rightarrow> string \<times> string \<Rightarrow> (char \<times> string) list" where
  "stepTok m st = map (\<lambda>(k, t). (k, if t = fst st then snd st else t)) m"

definition contOK :: "(char \<times> string) list \<Rightarrow> string \<Rightarrow> bool" where
  \<comment> \<open>no match that has begun before a piece of the table goes on into the piece\<close>
  "contOK m p = list_all (\<lambda>k. list_all (\<lambda>(c, t). clash (drop k p) t) m) [1..<length p]"

definition stageOK :: "(char \<times> string) list \<Rightarrow> string \<times> string \<Rightarrow> bool" where
  "stageOK m st =
     (fst st \<noteq> []
      \<and> list_all (\<lambda>(k, t). t = fst st \<or> inert (fst st) t) m
      \<and> (hd (fst st) \<in> set (map fst m) \<or> contOK m (fst st)))"

fun stagesOK :: "(char \<times> string) list \<Rightarrow> (string \<times> string) list \<Rightarrow> bool" where
  "stagesOK m [] = True"
| "stagesOK m (st # sts) = (stageOK m st \<and> stagesOK (stepTok m st) sts)"

definition repcharStages :: "(string \<times> string) list" where
  \<comment> \<open>the replacements of \<^verbatim>\<open>repchar\<close> in their order\<close>
  "repcharStages =
     [([BSL], [BSL, BSL]), (''#'', [BSL, CHR ''#'']), (''='', [BSL, CHR ''='']),
      (''~'', [BSL, CHR ''~'']), (''{'', [BSL, CHR ''{'']), (''}'', [BSL, CHR ''}'']),
      ('':'', [BSL, CHR '':'']), ([NL], [BSL, CHR ''n'']), ([CR], [])]"

definition preStages :: "(string \<times> string) list" where
  \<comment> \<open>the replacements of \<^verbatim>\<open>escapedcharPre\<close> in their order\<close>
  "preStages = ([BSL, BSL], ''&&092;'') # ESC_PRE @ [(''&&092;'', [BSL])]"

definition reserved :: "(char \<times> string) list" where
  "reserved = map (\<lambda>c. (c, [c])) ([BSL] @ ''#=~{}:'')"

definition placeholders :: "string list" where
  \<comment> \<open>the eight placeholders of the mask\<close>
  "placeholders = ''&&092;'' # map snd ESC_PRE"

definition escapePairs :: "string list" where
  \<comment> \<open>the eight pairs that the mask replaces\<close>
  "escapePairs = [BSL, BSL] # map fst ESC_PRE"

subsection \<open>The round trip, the answer body and the blocks\<close>

definition reparse :: "string \<Rightarrow> error + Question list" where
  \<comment> \<open>\<^verbatim>\<open>parseGift(exportGift(parseGift(t)))\<close>\<close>
  "reparse t =
     (case parseGift t of
        Inl e \<Rightarrow> Inl e
      | Inr qs \<Rightarrow> (case exportQuestions qs of Inl e \<Rightarrow> Inl e | Inr out \<Rightarrow> parseGift out))"

definition blockText :: "string list \<Rightarrow> string" where
  \<comment> \<open>the text of a block once its comment lines are set aside, before masking\<close>
  "blockText lns = trim (join [NL] (snd (separateComments lns)))"

definition bodyText :: "string list \<Rightarrow> string" where
  \<comment> \<open>the masked text of a block after its name, in which the braces are looked for\<close>
  "bodyText lns = snd (extractName (escapedcharPre (blockText lns)))"

definition answerBody :: "string list \<Rightarrow> string" where
  \<comment> \<open>the answer text of a block after the general feedback has been taken off\<close>
  "answerBody lns =
     (case braces (bodyText lns) of
        Inl e \<Rightarrow> []
      | Inr (description, atext0, questiontext0) \<Rightarrow> snd (splitGeneralFeedback atext0))"

definition specClassify :: "string \<Rightarrow> string" where
  \<comment> \<open>the six rules of the specification, in their order\<close>
  "specClassify body =
     (if body = [] then ''essay''
      else if hd body = CHR ''#'' then ''numerical''
      else if CHR ''~'' \<in> set body then ''multichoice''
      else if CHR ''='' \<in> set body \<and> (CHR ''-'', CHR ''>'') \<in> set (zip body (tl body))
        then ''match''
      else if toUpperCase (trim (takeWhile (\<lambda>c. c \<noteq> CHR ''#'') body))
                \<in> {''T'', ''TRUE'', ''F'', ''FALSE''} then ''truefalse''
      else ''shortanswer'')"

fun blocksOf :: "string list \<Rightarrow> string list \<Rightarrow> string list list" where
  \<comment> \<open>the buffers that the loop of \<^verbatim>\<open>parseGift\<close> flushes, in their order\<close>
  "blocksOf [] buf = (if buf \<noteq> [] then [buf] else [])"
| "blocksOf (line # rest) buf =
     (if list_all isSpace line
      then (if buf \<noteq> [] then buf # blocksOf rest [] else blocksOf rest buf)
      else blocksOf rest (buf @ [line]))"

definition questionBlocks :: "string \<Rightarrow> string list list" where
  "questionBlocks input = blocksOf (split [NL] (normalizeNewlines input)) []"

fun firstError :: "(error + 'a) list \<Rightarrow> error option" where
  "firstError [] = None"
| "firstError (Inl e # rs) = Some e"
| "firstError (Inr x # rs) = firstError rs"

definition unsupported :: "Question \<Rightarrow> bool" where
  \<comment> \<open>the \<^verbatim>\<open>qtype\<close> is none of those the exporter writes\<close>
  "unsupported q = (case variant q of Other t \<Rightarrow> True | _ \<Rightarrow> False)"


section \<open>Evaluations\<close>

lemma overflowLimit_power: "overflowLimit = 2 ^ 1024 - 2 ^ 970"
  by (simp add: overflowLimit_def)

text \<open>
  Claim C1 (the parse of an exported parse equals the parse), evaluated at the short-answer
  question of the specification's own scenario. The exporter writes the weight of every
  short answer as \<^verbatim>\<open>%100%\<close>, the weight pattern of the parser reads at most two
  digits, and the weight becomes part of the answer.
\<close>

theorem roundtrip_changes_shortanswer:
  "parseGift ''::Q1::Capital of France {=Paris}'' =
     Inr [\<lparr>qid = None, name = ''Q1'', questiontext = ''Capital of France'',
           questiontextformat = MOODLE, generalfeedback = [], generalfeedbackformat = MOODLE,
           idnumber = [], tags = [],
           variant = Shortanswer
             [\<lparr>answer = Txt ''Paris'', answerformat = None, tolerance = None,
               fraction = Fin 1, feedback = [], feedbackformat = MOODLE\<rparr>]\<rparr>]
   \<and> reparse ''::Q1::Capital of France {=Paris}'' =
     Inr [\<lparr>qid = None, name = ''Q1'', questiontext = ''Capital of France'',
           questiontextformat = MOODLE, generalfeedback = [], generalfeedbackformat = MOODLE,
           idnumber = [], tags = [],
           variant = Shortanswer
             [\<lparr>answer = Txt ''%100%Paris'', answerformat = None, tolerance = None,
               fraction = Fin 1, feedback = [], feedbackformat = MOODLE\<rparr>]\<rparr>]"
  by code_simp

text \<open>
  Claim C5 (a span that begins with an unrecognized bracketed tag keeps its text, and its
  format is the default), evaluated at \<^verbatim>\<open>[foo]bar\<close>: the tag is taken off, and the
  format is \<open>MOODLE\<close> also where the default is \<open>HTML\<close>.
\<close>

theorem unknown_tag_is_consumed:
  "parseTextWithFormat ''[foo]bar'' MOODLE = \<lparr>text = ''bar'', format = MOODLE\<rparr>
   \<and> parseTextWithFormat ''[foo]bar'' HTML = \<lparr>text = ''bar'', format = MOODLE\<rparr>"
  by code_simp

text \<open>
  Claim C6 (the fraction is the signed percentage divided by 100), evaluated at the prefix
  \<^verbatim>\<open>%-50%\<close>: the fraction is one half, the sign is lost.
\<close>

theorem negative_weight_loses_sign:
  "parseWeight ''%-50%a'' = (Some (Fin (1 / 2)), ''a'')
   \<and> parseGift ''Q {~%-50%a ~%50%b}'' =
     Inr [\<lparr>qid = None, name = ''Q'', questiontext = ''Q'', questiontextformat = MOODLE,
           generalfeedback = [], generalfeedbackformat = MOODLE, idnumber = [], tags = [],
           variant = Multichoice False
             [\<lparr>answer = Txt ''a'', answerformat = Some MOODLE, tolerance = None,
               fraction = Fin (1 / 2), feedback = [], feedbackformat = MOODLE\<rparr>,
              \<lparr>answer = Txt ''b'', answerformat = Some MOODLE, tolerance = None,
               fraction = Fin (1 / 2), feedback = [], feedbackformat = MOODLE\<rparr>]\<rparr>]"
  by code_simp


section \<open>Classification of the answer body\<close>

lemma indexOf_single_None: "indexOf s [c] = None \<longleftrightarrow> c \<notin> set s"
  by (induction s) auto

lemma lastIndexOf_single_None: "lastIndexOf s [c] = None \<longleftrightarrow> c \<notin> set s"
  by (induction s) (auto split: option.splits)

lemma includesStr_single: "includesStr s [c] \<longleftrightarrow> c \<in> set s"
  by (simp add: includesStr_def indexOf_single_None)

lemma includesStr_pair: "includesStr s [a, b] \<longleftrightarrow> (a, b) \<in> set (zip s (tl s))"
proof (induction s)
  case Nil
  then show ?case by (simp add: includesStr_def)
next
  case (Cons c cs)
  then show ?case by (cases cs) (auto simp: includesStr_def)
qed

lemma split_not_Nil: "split sep s \<noteq> []"
  by (induction sep s rule: split.induct) (auto split: list.splits)

lemma split_first:
  "(case take (Suc 0) (split [c] s) of [] \<Rightarrow> [] | b # bs \<Rightarrow> b) = takeWhile (\<lambda>x. x \<noteq> c) s"
proof (induction s)
  case Nil
  then show ?case by simp
next
  case (Cons x xs)
  then show ?case using split_not_Nil [of "[c]" xs]
    by (cases "split [c] xs") auto
qed

lemma determineQtype_spec: "a \<noteq> [] \<Longrightarrow> determineQtype a = specClassify a"
proof -
  assume a: "a \<noteq> []"
  then have hd: "startsWith a ''#'' \<longleftrightarrow> hd a = CHR ''#''" by (cases a) auto
  have tw: "CHR ''#'' \<notin> set a \<Longrightarrow> takeWhile (\<lambda>c. c \<noteq> CHR ''#'') a = a"
    by (auto simp: takeWhile_eq_all_conv)
  show ?thesis
    unfolding determineQtype_def specClassify_def Let_def
    using a by (auto simp: hd includesStr_single includesStr_pair split_first tw)
qed

lemma parseAnswers_qtype: "parseAnswers qt fmt a = Inr v \<Longrightarrow> qtype v = qt"
  unfolding parseAnswers_def Let_def
  by (auto split: if_splits sum.splits prod.splits)

lemma parseMain_Inr:
  assumes "parseMain cm nm txt = Inr q"
  obtains d a0 q0 where "braces txt = Inr (d, a0, q0)"
    and "d \<Longrightarrow> variant q = Description"
    and "\<not> d \<Longrightarrow> snd (splitGeneralFeedback a0) = [] \<Longrightarrow> variant q = Essay"
    and "\<not> d \<Longrightarrow> snd (splitGeneralFeedback a0) \<noteq> [] \<Longrightarrow>
           parseAnswers (determineQtype (snd (splitGeneralFeedback a0))) (questiontextformat q)
             (snd (splitGeneralFeedback a0)) = Inr (variant q)"
proof (cases "braces txt")
  case (Inl e)
  with assms show ?thesis by (simp add: parseMain_def)
next
  case (Inr r)
  obtain d a0 q0 where r: "r = (d, a0, q0)" by (cases r)
  obtain g a where g: "splitGeneralFeedback a0 = (g, a)" by (cases "splitGeneralFeedback a0")
  from assms Inr r g have
    "(d \<longrightarrow> variant q = Description)
     \<and> (\<not> d \<longrightarrow> a = [] \<longrightarrow> variant q = Essay)
     \<and> (\<not> d \<longrightarrow> a \<noteq> [] \<longrightarrow> parseAnswers (determineQtype a) (questiontextformat q) a = Inr (variant q))"
    unfolding parseMain_def Let_def
    by (auto split: if_splits sum.splits)
  with Inr r g that show ?thesis by simp
qed

lemma parseQuestion_Some:
  assumes "parseQuestion lns = Inr (Some q)"
    and "\<not> startsWith (escapedcharPre (blockText lns)) ''$CATEGORY:''"
  shows "\<exists>nm. parseMain (fst (separateComments lns)) nm (bodyText lns) = Inr q"
  using assms unfolding parseQuestion_def blockText_def bodyText_def Let_def
  by (auto split: if_splits sum.splits prod.splits)

text \<open>
  Claim C3: for a block that is not a category and has a well-formed answer span, the kind
  of the parsed question is decided from the answer body, once the general feedback is
  taken off, by the six rules in their order: empty gives essay; a leading \<open>#\<close> gives
  numerical; a \<open>~\<close> gives multichoice; an \<open>=\<close> together with \<open>->\<close> gives match; a
  body that, cut at the first \<open>#\<close>, trimmed and in capitals, is one of T, TRUE, F, FALSE
  gives truefalse; everything else gives shortanswer. An earlier rule wins over a later.
\<close>

theorem classification_order:
  assumes "parseQuestion lns = Inr (Some q)"
    and "\<not> startsWith (escapedcharPre (blockText lns)) ''$CATEGORY:''"
    and "braces (bodyText lns) = Inr (False, a0, q0)"
  shows "qtype (variant q) = specClassify (answerBody lns)"
proof -
  from parseQuestion_Some [OF assms(1,2)] obtain nm
    where pm: "parseMain (fst (separateComments lns)) nm (bodyText lns) = Inr q" ..
  have body: "answerBody lns = snd (splitGeneralFeedback a0)"
    by (simp add: answerBody_def assms(3))
  from pm show ?thesis
  proof (rule parseMain_Inr)
    fix d a0' q0'
    assume b: "braces (bodyText lns) = Inr (d, a0', q0')"
      and essay: "\<not> d \<Longrightarrow> snd (splitGeneralFeedback a0') = [] \<Longrightarrow> variant q = Essay"
      and other: "\<not> d \<Longrightarrow> snd (splitGeneralFeedback a0') \<noteq> [] \<Longrightarrow>
           parseAnswers (determineQtype (snd (splitGeneralFeedback a0'))) (questiontextformat q)
             (snd (splitGeneralFeedback a0')) = Inr (variant q)"
    from b assms(3) have eq: "d = False" "a0' = a0" by simp_all
    show ?thesis
    proof (cases "answerBody lns = []")
      case True
      with essay eq body show ?thesis by (simp add: specClassify_def)
    next
      case False
      with other eq body have "qtype (variant q) = determineQtype (answerBody lns)"
        by (simp add: parseAnswers_qtype)
      with False show ?thesis by (simp add: determineQtype_spec)
    qed
  qed
qed

theorem classification_order_witness:
  "parseQuestion [''Is the sky blue? {T#no}''] = Inr (Some
       \<lparr>qid = None, name = ''Is the sky blue?'', questiontext = ''Is the sky blue?'',
        questiontextformat = MOODLE, generalfeedback = [], generalfeedbackformat = MOODLE,
        idnumber = [], tags = [],
        variant = Truefalse True \<lparr>text = [], format = MOODLE\<rparr> \<lparr>text = ''no'', format = MOODLE\<rparr>\<rparr>)
   \<and> \<not> startsWith (escapedcharPre (blockText [''Is the sky blue? {T#no}''])) ''$CATEGORY:''
   \<and> braces (bodyText [''Is the sky blue? {T#no}'']) = Inr (False, ''T#no'', ''Is the sky blue? '')
   \<and> specClassify (answerBody [''Is the sky blue? {T#no}'']) = ''truefalse''"
proof -
  have p: "parseQuestion [''Is the sky blue? {T#no}''] = Inr (Some
       \<lparr>qid = None, name = ''Is the sky blue?'', questiontext = ''Is the sky blue?'',
        questiontextformat = MOODLE, generalfeedback = [], generalfeedbackformat = MOODLE,
        idnumber = [], tags = [],
        variant = Truefalse True \<lparr>text = [], format = MOODLE\<rparr> \<lparr>text = ''no'', format = MOODLE\<rparr>\<rparr>)"
    by code_simp
  have c: "\<not> startsWith (escapedcharPre (blockText [''Is the sky blue? {T#no}''])) ''$CATEGORY:''"
    by code_simp
  have b: "braces (bodyText [''Is the sky blue? {T#no}'']) = Inr (False, ''T#no'', ''Is the sky blue? '')"
    by code_simp
  from classification_order [OF p c b] p c b show ?thesis by simp
qed

section \<open>The braces of a block\<close>

lemma matchPairs_error: "matchPairs fmt ps = Inl (Error m) \<Longrightarrow> hd m = CHR ''M''"
  by (induction ps arbitrary: m) (auto simp: Let_def split: option.splits sum.splits)

lemma numericalValue_error: "numericalValue raw = Inl (Error m) \<Longrightarrow> hd m = CHR ''N''"
  unfolding numericalValue_def Let_def
  by (auto split: if_splits option.splits list.splits number.splits)

lemma numericalAnswers_error: "numericalAnswers fmt ps = Inl (Error m) \<Longrightarrow> hd m = CHR ''N''"
proof (induction ps arbitrary: m)
  case Nil
  then show ?case by simp
next
  case (Cons p ps)
  then show ?case
    by (auto simp: Let_def split: prod.splits sum.splits option.splits dest: numericalValue_error)
qed

lemma parseNumerical_error: "parseNumerical fmt a = Inl (Error m) \<Longrightarrow> hd m = CHR ''N''"
  unfolding parseNumerical_def Let_def
  by (auto split: if_splits sum.splits prod.splits dest: numericalAnswers_error)

lemma parseAnswers_error: "parseAnswers qt fmt a = Inl (Error m) \<Longrightarrow> hd m \<noteq> CHR ''B''"
  unfolding parseAnswers_def Let_def
  by (auto split: if_splits sum.splits prod.splits
      dest!: matchPairs_error parseNumerical_error)

lemma parseMain_error:
  assumes "parseMain cm nm txt = Inl (Error m)" and "braces txt = Inr r"
  shows "hd m \<noteq> CHR ''B''"
proof -
  obtain d a0 q0 where r: "r = (d, a0, q0)" by (cases r)
  from assms r show ?thesis
    unfolding parseMain_def Let_def
    by (auto split: if_splits sum.splits prod.splits dest: parseAnswers_error)
qed

lemma parseQuestion_body:
  assumes "blockText lns \<noteq> []"
    and "\<not> startsWith (escapedcharPre (blockText lns)) ''$CATEGORY:''"
  shows "parseQuestion lns =
     (case parseMain (fst (separateComments lns)) (fst (extractName (escapedcharPre (blockText lns))))
             (bodyText lns) of
        Inl e \<Rightarrow> Inl e | Inr q \<Rightarrow> Inr (Some q))"
  using assms unfolding parseQuestion_def blockText_def bodyText_def Let_def
  by (auto split: prod.splits)

lemma parseMain_description:
  assumes "braces txt = Inr (True, a0, q0)"
  shows "\<exists>q. parseMain cm nm txt = Inr q \<and> variant q = Description
           \<and> questiontext q = text (parseTextWithFormat q0 MOODLE)"
  using assms unfolding parseMain_def Let_def
  by (auto split: prod.splits)

lemma no_braces_description:
  assumes "blockText lns \<noteq> []"
    and "\<not> startsWith (escapedcharPre (blockText lns)) ''$CATEGORY:''"
    and "CHR ''{'' \<notin> set (bodyText lns)" "CHR ''}'' \<notin> set (bodyText lns)"
  shows "\<exists>q. parseQuestion lns = Inr (Some q) \<and> variant q = Description
           \<and> questiontext q = text (parseTextWithFormat (bodyText lns) MOODLE)"
proof -
  from assms(3,4)
  have "indexOf (bodyText lns) ''{'' = None" "lastIndexOf (bodyText lns) ''}'' = None"
    by (simp_all add: indexOf_single_None lastIndexOf_single_None)
  then have "braces (bodyText lns) = Inr (True, [], bodyText lns)"
    by (simp add: braces_def)
  from parseMain_description [OF this]
  obtain q where "parseMain (fst (separateComments lns))
       (fst (extractName (escapedcharPre (blockText lns)))) (bodyText lns) = Inr q"
    "variant q = Description" "questiontext q = text (parseTextWithFormat (bodyText lns) MOODLE)"
    by blast
  then show ?thesis
    unfolding parseQuestion_body [OF assms(1,2)] by simp
qed

lemma bad_braces_error:
  assumes "blockText lns \<noteq> []"
    and "\<not> startsWith (escapedcharPre (blockText lns)) ''$CATEGORY:''"
    and "(CHR ''{'' \<in> set (bodyText lns)) \<noteq> (CHR ''}'' \<in> set (bodyText lns))
            \<or> (\<exists>i j. indexOf (bodyText lns) ''{'' = Some i
                     \<and> lastIndexOf (bodyText lns) ''}'' = Some j \<and> j < i)"
  shows "parseQuestion lns
      = Inl (Error (''Brace error in question: '' @ escapedcharPost (bodyText lns)))"
proof -
  from assms(3) have "braces (bodyText lns)
      = Inl (Error (''Brace error in question: '' @ escapedcharPost (bodyText lns)))"
    using indexOf_single_None [of "bodyText lns" "CHR ''{''"]
      lastIndexOf_single_None [of "bodyText lns" "CHR ''}''"]
    by (auto simp: braces_def split: option.splits)
  then show ?thesis
    unfolding parseQuestion_body [OF assms(1,2)] by (simp add: parseMain_def)
qed

lemma good_braces_span:
  assumes "blockText lns \<noteq> []"
    and "\<not> startsWith (escapedcharPre (blockText lns)) ''$CATEGORY:''"
    and "indexOf (bodyText lns) ''{'' = Some i" "lastIndexOf (bodyText lns) ''}'' = Some j" "i < j"
  shows "parseQuestion lns \<noteq> Inl (Error (''Brace error in question: '' @ m))"
    and "\<exists>q0. braces (bodyText lns) = Inr (False, trim (slice (bodyText lns) (Suc i) j), q0)"
proof -
  from assms(3-5)
  show b: "\<exists>q0. braces (bodyText lns) = Inr (False, trim (slice (bodyText lns) (Suc i) j), q0)"
    by (simp add: braces_def)
  then obtain r where r: "braces (bodyText lns) = Inr r" by blast
  show "parseQuestion lns \<noteq> Inl (Error (''Brace error in question: '' @ m))"
  proof
    assume "parseQuestion lns = Inl (Error (''Brace error in question: '' @ m))"
    then have "parseMain (fst (separateComments lns))
           (fst (extractName (escapedcharPre (blockText lns)))) (bodyText lns)
         = Inl (Error (''Brace error in question: '' @ m))"
      unfolding parseQuestion_body [OF assms(1,2)] by (auto split: sum.splits)
    from parseMain_error [OF this r] show False by simp
  qed
qed

text \<open>
  Claim C4, as stated for every block, fails: a category block is returned before the
  braces are looked at, and the braces are looked for after the name has been taken off.
  Both blocks below hold exactly one brace and neither raises an error.
\<close>

theorem brace_error_counterexample:
  "CHR ''{'' \<in> set (escapedcharPre (blockText [''$CATEGORY: a{'']))
   \<and> CHR ''}'' \<notin> set (escapedcharPre (blockText [''$CATEGORY: a{'']))
   \<and> parseQuestion [''$CATEGORY: a{''] = Inr (Some (defaultQuestion (Category ''a{'')))
   \<and> CHR ''{'' \<in> set (escapedcharPre (blockText [''::a{::b'']))
   \<and> CHR ''}'' \<notin> set (escapedcharPre (blockText [''::a{::b'']))
   \<and> parseQuestion [''::a{::b''] = Inr (Some
         \<lparr>qid = None, name = ''a{'', questiontext = ''b'', questiontextformat = MOODLE,
          generalfeedback = [], generalfeedbackformat = MOODLE, idnumber = [], tags = [],
          variant = Description\<rparr>)"
  by code_simp

text \<open>
  Claim C4, amended: for every block that is not empty and not a category, let the body
  be its masked text after the name. If the body has neither brace, the block parses as a
  description whose question text is the body read as a text with a format. If the body
  has exactly one of the two braces, or its last closing brace comes before its first
  opening brace, the parse fails with the brace error, which shows the unmasked body. If
  the first opening brace comes before the last closing brace, the parse raises no brace
  error, and the answer text is the text strictly between the two, trimmed.
\<close>

theorem brace_cases:
  assumes "blockText lns \<noteq> []"
    and "\<not> startsWith (escapedcharPre (blockText lns)) ''$CATEGORY:''"
  shows "(CHR ''{'' \<notin> set (bodyText lns) \<and> CHR ''}'' \<notin> set (bodyText lns) \<longrightarrow>
            (\<exists>q. parseQuestion lns = Inr (Some q) \<and> variant q = Description
                 \<and> questiontext q = text (parseTextWithFormat (bodyText lns) MOODLE)))
       \<and> ((CHR ''{'' \<in> set (bodyText lns)) \<noteq> (CHR ''}'' \<in> set (bodyText lns))
            \<or> (\<exists>i j. indexOf (bodyText lns) ''{'' = Some i
                     \<and> lastIndexOf (bodyText lns) ''}'' = Some j \<and> j < i) \<longrightarrow>
            parseQuestion lns
              = Inl (Error (''Brace error in question: '' @ escapedcharPost (bodyText lns))))
       \<and> (\<forall>i j. indexOf (bodyText lns) ''{'' = Some i
                 \<and> lastIndexOf (bodyText lns) ''}'' = Some j \<and> i < j \<longrightarrow>
            (\<forall>m. parseQuestion lns \<noteq> Inl (Error (''Brace error in question: '' @ m)))
            \<and> (\<exists>q0. braces (bodyText lns)
                      = Inr (False, trim (slice (bodyText lns) (Suc i) j), q0)))"
  using no_braces_description [OF assms] bad_braces_error [OF assms] good_braces_span [OF assms]
  by blast

theorem brace_cases_witness:
  "parseQuestion [''just text''] = Inr (Some
       \<lparr>qid = None, name = ''just text'', questiontext = ''just text'',
        questiontextformat = MOODLE, generalfeedback = [], generalfeedbackformat = MOODLE,
        idnumber = [], tags = [], variant = Description\<rparr>)
   \<and> parseQuestion [''Q {''] = Inl (Error ''Brace error in question: Q {'')
   \<and> parseQuestion [''Q } {''] = Inl (Error ''Brace error in question: Q } {'')
   \<and> braces (bodyText [''Q { =a } x'']) = Inr (False, ''=a'', ''Q _____ x'')"
proof -
  have 1: "blockText [''just text''] \<noteq> []"
    "\<not> startsWith (escapedcharPre (blockText [''just text''])) ''$CATEGORY:''"
    "bodyText [''just text''] = ''just text''"
    by code_simp+
  have 2: "blockText [''Q {''] \<noteq> []"
    "\<not> startsWith (escapedcharPre (blockText [''Q {''])) ''$CATEGORY:''"
    "bodyText [''Q {''] = ''Q {''"
    by code_simp+
  have 3: "blockText [''Q } {''] \<noteq> []"
    "\<not> startsWith (escapedcharPre (blockText [''Q } {''])) ''$CATEGORY:''"
    "bodyText [''Q } {''] = ''Q } {''"
    by code_simp+
  have 4: "blockText [''Q { =a } x''] \<noteq> []"
    "\<not> startsWith (escapedcharPre (blockText [''Q { =a } x''])) ''$CATEGORY:''"
    "bodyText [''Q { =a } x''] = ''Q { =a } x''"
    by code_simp+
  have a: "parseQuestion [''just text''] = Inr (Some
       \<lparr>qid = None, name = ''just text'', questiontext = ''just text'',
        questiontextformat = MOODLE, generalfeedback = [], generalfeedbackformat = MOODLE,
        idnumber = [], tags = [], variant = Description\<rparr>)"
    by code_simp
  have b: "parseQuestion [''Q {''] = Inl (Error ''Brace error in question: Q {'')"
    using brace_cases [OF 2(1,2)] by (simp add: 2(3) escapedcharPost_def replaceEach_def ESC_POST_def ESC_PRE_def)
  have c: "parseQuestion [''Q } {''] = Inl (Error ''Brace error in question: Q } {'')"
    using brace_cases [OF 3(1,2)] by (simp add: 3(3) escapedcharPost_def replaceEach_def ESC_POST_def ESC_PRE_def)
  have d: "braces (bodyText [''Q { =a } x'']) = Inr (False, ''=a'', ''Q _____ x'')"
    by code_simp
  from a b c d show ?thesis by simp
qed

section \<open>Numerical answers\<close>

lemma indexOf_single_Some:
  "indexOf s [c] = Some t \<Longrightarrow>
   drop t s = dropWhile (\<lambda>x. x \<noteq> c) s \<and> take t s = takeWhile (\<lambda>x. x \<noteq> c) s"
  by (induction s arbitrary: t) (auto split: if_splits)

lemma numericalAnswers_Num:
  "numericalAnswers fmt ps = Inr answers \<Longrightarrow> \<forall>a\<in>set answers. \<exists>x. answer a = Num x"
proof (induction ps arbitrary: answers)
  case Nil
  then show ?case by simp
next
  case (Cons p ps)
  then show ?case
    by (auto simp: Let_def split: prod.splits sum.splits option.splits)
qed

lemma parseNumerical_tilde:
  assumes "parseNumerical fmt a = Inr answers" and "CHR ''~'' \<in> set (drop 1 a)"
  shows "\<exists>nums. numericalAnswers fmt
                   (nonEmptyParts ''='' (takeWhile (\<lambda>c. c \<noteq> CHR ''~'') (drop 1 a))) = Inr nums
          \<and> answers = nums @
              [\<lparr>answer = Txt ''*'', answerformat = None, tolerance = Some NoTol, fraction = Fin 0,
                feedback = text (snd (commentParser (dropWhile (\<lambda>c. c \<noteq> CHR ''~'') (drop 1 a)) fmt)),
                feedbackformat = format (snd (commentParser (dropWhile (\<lambda>c. c \<noteq> CHR ''~'') (drop 1 a)) fmt))\<rparr>]"
proof -
  from assms(2) obtain t where t: "indexOf (drop 1 a) ''~'' = Some t"
    using indexOf_single_None [of "drop 1 a" "CHR ''~''"] by auto
  note dt = indexOf_single_Some [OF t]
  from assms(2) have ne: "dropWhile (\<lambda>c. c \<noteq> CHR ''~'') (drop 1 a) \<noteq> []"
    by (simp add: dropWhile_eq_Nil_conv)
  from assms(1) t dt ne show ?thesis
    unfolding parseNumerical_def Let_def
    by (auto split: if_splits sum.splits prod.splits)
qed

lemma parseQuestion_Numerical:
  assumes "parseQuestion lns = Inr (Some q)" and "variant q = Numerical answers"
  shows "parseNumerical (questiontextformat q) (answerBody lns) = Inr answers"
    and "startsWith (answerBody lns) ''#''"
proof -
  have nc: "\<not> startsWith (escapedcharPre (blockText lns)) ''$CATEGORY:''"
  proof
    assume "startsWith (escapedcharPre (blockText lns)) ''$CATEGORY:''"
    with assms(1) have "\<exists>c. variant q = Category c"
      unfolding parseQuestion_def blockText_def Let_def
      by (auto simp: defaultQuestion_def split: if_splits prod.splits)
    with assms(2) show False by auto
  qed
  from parseQuestion_Some [OF assms(1) nc] obtain nm
    where pm: "parseMain (fst (separateComments lns)) nm (bodyText lns) = Inr q" ..
  from pm have "parseNumerical (questiontextformat q) (answerBody lns) = Inr answers
      \<and> startsWith (answerBody lns) ''#''"
  proof (rule parseMain_Inr)
    fix d a0 q0
    assume b: "braces (bodyText lns) = Inr (d, a0, q0)"
      and desc: "d \<Longrightarrow> variant q = Description"
      and essay: "\<not> d \<Longrightarrow> snd (splitGeneralFeedback a0) = [] \<Longrightarrow> variant q = Essay"
      and other: "\<not> d \<Longrightarrow> snd (splitGeneralFeedback a0) \<noteq> [] \<Longrightarrow>
           parseAnswers (determineQtype (snd (splitGeneralFeedback a0))) (questiontextformat q)
             (snd (splitGeneralFeedback a0)) = Inr (variant q)"
    from b have body: "answerBody lns = snd (splitGeneralFeedback a0)"
      by (simp add: answerBody_def)
    from desc assms(2) have d: "\<not> d" by auto
    from essay d assms(2) have ne: "snd (splitGeneralFeedback a0) \<noteq> []" by auto
    from other [OF d ne] body assms(2)
    have pa: "parseAnswers (determineQtype (answerBody lns)) (questiontextformat q) (answerBody lns)
        = Inr (Numerical answers)" by simp
    from parseAnswers_qtype [OF pa] have qt: "determineQtype (answerBody lns) = ''numerical''"
      by simp
    then have "startsWith (answerBody lns) ''#''"
      unfolding determineQtype_def Let_def by (auto split: if_splits)
    moreover from pa qt have "parseNumerical (questiontextformat q) (answerBody lns) = Inr answers"
      unfolding parseAnswers_def by (auto split: sum.splits)
    ultimately show ?thesis by simp
  qed
  then show "parseNumerical (questiontextformat q) (answerBody lns) = Inr answers"
    and "startsWith (answerBody lns) ''#''" by simp_all
qed

text \<open>
  Claim C8: in a parsed numerical question whose answer body has a \<open>~\<close>, the last answer
  is the wildcard entry, with answer \<open>*\<close>, fraction 0 and the feedback read from the text
  that starts at the first \<open>~\<close>; the answers before it are numbers, read from the parts
  of the text before that \<open>~\<close>, so no other entry follows the wildcard.
\<close>

theorem wildcard_entry_last:
  assumes "parseQuestion lns = Inr (Some q)"
    and "variant q = Numerical answers"
    and "CHR ''~'' \<in> set (answerBody lns)"
  shows "answers \<noteq> []
       \<and> last answers =
           \<lparr>answer = Txt ''*'', answerformat = None, tolerance = Some NoTol, fraction = Fin 0,
            feedback = text (snd (commentParser
                         (dropWhile (\<lambda>c. c \<noteq> CHR ''~'') (answerBody lns)) (questiontextformat q))),
            feedbackformat = format (snd (commentParser
                         (dropWhile (\<lambda>c. c \<noteq> CHR ''~'') (answerBody lns)) (questiontextformat q)))\<rparr>
       \<and> (\<forall>a\<in>set (butlast answers). \<exists>x. answer a = Num x)
       \<and> numericalAnswers (questiontextformat q)
            (nonEmptyParts ''='' (takeWhile (\<lambda>c. c \<noteq> CHR ''~'') (drop 1 (answerBody lns))))
          = Inr (butlast answers)"
proof -
  note pn = parseQuestion_Numerical [OF assms(1,2)]
  from pn(2) obtain r where body: "answerBody lns = CHR ''#'' # r"
    by (cases "answerBody lns") auto
  with assms(3) have tilde: "CHR ''~'' \<in> set (drop 1 (answerBody lns))" by simp
  from body have dw: "dropWhile (\<lambda>c. c \<noteq> CHR ''~'') (answerBody lns)
      = dropWhile (\<lambda>c. c \<noteq> CHR ''~'') (drop 1 (answerBody lns))" by simp
  from parseNumerical_tilde [OF pn(1) tilde] obtain nums where
    nums: "numericalAnswers (questiontextformat q)
             (nonEmptyParts ''='' (takeWhile (\<lambda>c. c \<noteq> CHR ''~'') (drop 1 (answerBody lns)))) = Inr nums"
    and ans: "answers = nums @
              [\<lparr>answer = Txt ''*'', answerformat = None, tolerance = Some NoTol, fraction = Fin 0,
                feedback = text (snd (commentParser
                   (dropWhile (\<lambda>c. c \<noteq> CHR ''~'') (drop 1 (answerBody lns))) (questiontextformat q))),
                feedbackformat = format (snd (commentParser
                   (dropWhile (\<lambda>c. c \<noteq> CHR ''~'') (drop 1 (answerBody lns))) (questiontextformat q)))\<rparr>]"
    by blast
  from numericalAnswers_Num [OF nums] have "\<forall>a\<in>set nums. \<exists>x. answer a = Num x" .
  with nums ans dw show ?thesis by simp
qed

theorem wildcard_entry_last_witness:
  "parseQuestion [''N {#5 =%50%7:1#near ~ #wrong}''] = Inr (Some
     \<lparr>qid = None, name = ''N'', questiontext = ''N'', questiontextformat = MOODLE,
      generalfeedback = [], generalfeedbackformat = MOODLE, idnumber = [], tags = [],
      variant = Numerical
        [\<lparr>answer = Num (Fin 5), answerformat = None, tolerance = Some (Tol (Fin 0)),
          fraction = Fin 1, feedback = [], feedbackformat = MOODLE\<rparr>,
         \<lparr>answer = Num (Fin 7), answerformat = None, tolerance = Some (Tol (Fin 1)),
          fraction = Fin (1 / 2), feedback = ''near'', feedbackformat = MOODLE\<rparr>,
         \<lparr>answer = Txt ''*'', answerformat = None, tolerance = Some NoTol,
          fraction = Fin 0, feedback = ''wrong'', feedbackformat = MOODLE\<rparr>]\<rparr>)
   \<and> CHR ''~'' \<in> set (answerBody [''N {#5 =%50%7:1#near ~ #wrong}''])
   \<and> text (snd (commentParser (dropWhile (\<lambda>c. c \<noteq> CHR ''~'')
              (answerBody [''N {#5 =%50%7:1#near ~ #wrong}''])) MOODLE)) = ''wrong''"
proof -
  have p: "parseQuestion [''N {#5 =%50%7:1#near ~ #wrong}''] = Inr (Some
     \<lparr>qid = None, name = ''N'', questiontext = ''N'', questiontextformat = MOODLE,
      generalfeedback = [], generalfeedbackformat = MOODLE, idnumber = [], tags = [],
      variant = Numerical
        [\<lparr>answer = Num (Fin 5), answerformat = None, tolerance = Some (Tol (Fin 0)),
          fraction = Fin 1, feedback = [], feedbackformat = MOODLE\<rparr>,
         \<lparr>answer = Num (Fin 7), answerformat = None, tolerance = Some (Tol (Fin 1)),
          fraction = Fin (1 / 2), feedback = ''near'', feedbackformat = MOODLE\<rparr>,
         \<lparr>answer = Txt ''*'', answerformat = None, tolerance = Some NoTol,
          fraction = Fin 0, feedback = ''wrong'', feedbackformat = MOODLE\<rparr>]\<rparr>)"
    by code_simp
  have t: "CHR ''~'' \<in> set (answerBody [''N {#5 =%50%7:1#near ~ #wrong}''])"
    by code_simp
  from wildcard_entry_last [OF p _ t] p t show ?thesis by simp
qed

section \<open>Escaping\<close>

lemma clash_startsWith: "clash p u \<Longrightarrow> \<not> startsWith (u @ r) p"
  by (induction p u rule: clash.induct) auto

lemma replaceAll_inert: "inert p t \<Longrightarrow> replaceAll p rep (t @ r) = t @ replaceAll p rep r"
proof (induction t)
  case Nil
  then show ?case by simp
next
  case (Cons c cs)
  then have "\<not> startsWith ((c # cs) @ r) p"
    using clash_startsWith by (metis inert.simps(2))
  with Cons show ?case by simp
qed

lemma startsWith_self: "startsWith (p @ r) p"
  by (induction p) auto

lemma replaceAll_hit: "p \<noteq> [] \<Longrightarrow> replaceAll p rep (p @ r) = rep @ replaceAll p rep r"
  using startsWith_self [of p r] by (cases p) auto

lemma inert_single: "p \<noteq> [] \<Longrightarrow> c \<noteq> hd p \<Longrightarrow> inert p [c]"
  by (cases p) auto

lemma map_of_stepTok:
  "map_of (stepTok m st) c = map_option (\<lambda>t. if t = fst st then snd st else t) (map_of m c)"
proof (induction m)
  case Nil
  show ?case by (simp add: stepTok_def)
next
  case (Cons kt m)
  obtain k t where kt: "kt = (k, t)" by (cases kt)
  from Cons show ?case by (simp add: stepTok_def kt)
qed

lemma tokOf_stepTok:
  "tokOf (stepTok m st) c =
     (case map_of m c of Some t \<Rightarrow> (if t = fst st then snd st else t) | None \<Rightarrow> [c])"
  by (simp add: tokOf_def map_of_stepTok split: option.splits)

lemma keys_stepTok: "fst ` set (stepTok m st) = fst ` set m"
  by (simp add: stepTok_def image_image case_prod_unfold)


lemma startsWith_Nil: "startsWith [] q \<longleftrightarrow> q = []"
  by (cases q) auto

lemma cont_startsWith:
  "contOK m p \<Longrightarrow> 0 < k \<Longrightarrow> startsWith (concat (map (tokOf m) s)) (drop k p) \<Longrightarrow>
   startsWith s (drop k p)"
proof (induction s arbitrary: k)
  case Nil
  then show ?case by (simp add: startsWith_Nil)
next
  case (Cons c s)
  show ?case
  proof (cases "k < length p")
    case False
    then show ?thesis by simp
  next
    case True
    then have dk: "drop k p = p ! k # drop (Suc k) p" by (simp add: Cons_nth_drop_Suc)
    show ?thesis
    proof (cases "map_of m c")
      case None
      then have "tokOf m c = [c]" by (simp add: tokOf_def)
      with Cons.prems(3) dk have c: "c = p ! k"
        and r: "startsWith (concat (map (tokOf m) s)) (drop (Suc k) p)" by simp_all
      from Cons.IH [OF Cons.prems(1) _ r] have "startsWith s (drop (Suc k) p)" by simp
      with c dk show ?thesis by simp
    next
      case (Some t)
      then have "(c, t) \<in> set m" by (rule map_of_SomeD)
      with Cons.prems(1,2) True have "clash (drop k p) t"
        by (auto simp: contOK_def list_all_iff)
      then have "\<not> startsWith (t @ concat (map (tokOf m) s)) (drop k p)"
        by (rule clash_startsWith)
      moreover from Some have "tokOf m c = t" by (simp add: tokOf_def)
      with Cons.prems(3) have "startsWith (t @ concat (map (tokOf m) s)) (drop k p)" by simp
      ultimately show ?thesis by simp
    qed
  qed
qed

lemma includesStr_Cons:
  "includesStr (c # cs) p \<longleftrightarrow> startsWith (c # cs) p \<or> includesStr cs p"
  by (simp add: includesStr_def)

lemma replaceAll_stage:
  assumes ok: "stageOK m (p, rep)"
    and plain: "hd p \<notin> fst ` set m \<longrightarrow> \<not> includesStr s p"
  shows "replaceAll p rep (concat (map (tokOf m) s)) = concat (map (tokOf (stepTok m (p, rep))) s)"
  using plain
proof (induction s)
  case Nil
  then show ?case by simp
next
  case (Cons c s)
  from ok have p: "p \<noteq> []" by (simp add: stageOK_def)
  from Cons.prems have tl: "hd p \<notin> fst ` set m \<longrightarrow> \<not> includesStr s p"
    by (simp add: includesStr_Cons)
  have rest: "replaceAll p rep (concat (map (tokOf m) s)) = concat (map (tokOf (stepTok m (p, rep))) s)"
    using Cons.IH [OF tl] .
  have first: "replaceAll p rep (tokOf m c @ r) = tokOf (stepTok m (p, rep)) c @ replaceAll p rep r"
    if r: "r = concat (map (tokOf m) s)" for r
  proof (cases "map_of m c")
    case None
    then have notkey: "c \<notin> fst ` set m" by (simp add: map_of_eq_None_iff)
    have "\<not> startsWith (c # r) p"
    proof (cases "c = hd p")
      case False
      with p show ?thesis by (cases p) auto
    next
      case True
      with notkey ok have cont: "contOK m p" by (auto simp: stageOK_def)
      from True notkey Cons.prems have absent: "\<not> startsWith (c # s) p"
        by (simp add: includesStr_Cons)
      show ?thesis
      proof
        assume "startsWith (c # r) p"
        with p True have "startsWith r (drop 1 p)" by (cases p) auto
        with cont r have "startsWith s (drop 1 p)"
          using cont_startsWith [of m p 1 s] by simp
        with p True have "startsWith (c # s) p" by (cases p) auto
        with absent show False ..
      qed
    qed
    then have "replaceAll p rep ([c] @ r) = [c] @ replaceAll p rep r" by simp
    moreover from None have "tokOf m c = [c]" "tokOf (stepTok m (p, rep)) c = [c]"
      by (simp_all add: tokOf_stepTok) (simp add: tokOf_def)
    ultimately show ?thesis by (simp del: replaceAll.simps)
  next
    case (Some t)
    then have "(c, t) \<in> set m" by (rule map_of_SomeD)
    with ok have t: "t = p \<or> inert p t" by (auto simp: stageOK_def list_all_iff)
    from Some have tok: "tokOf m c = t" by (simp add: tokOf_def)
    show ?thesis
    proof (cases "t = p")
      case True
      with Some have "tokOf (stepTok m (p, rep)) c = rep" by (simp add: tokOf_stepTok)
      with True tok p show ?thesis by (simp add: replaceAll_hit del: replaceAll.simps)
    next
      case False
      with Some have "tokOf (stepTok m (p, rep)) c = t" by (simp add: tokOf_stepTok)
      moreover from False t have "replaceAll p rep (t @ r) = t @ replaceAll p rep r"
        by (simp add: replaceAll_inert del: replaceAll.simps)
      ultimately show ?thesis using tok by (simp del: replaceAll.simps)
    qed
  qed
  show ?case using first rest by (simp del: replaceAll.simps)
qed

lemma replaceEach_stages:
  "stagesOK m sts \<Longrightarrow>
   \<forall>st\<in>set sts. hd (fst st) \<notin> fst ` set m \<longrightarrow> \<not> includesStr s (fst st) \<Longrightarrow>
   replaceEach sts (concat (map (tokOf m) s)) = concat (map (tokOf (foldl stepTok m sts)) s)"
proof (induction sts arbitrary: m)
  case Nil
  then show ?case by (simp add: replaceEach_def)
next
  case (Cons st sts)
  obtain p rep where st: "st = (p, rep)" by (cases st)
  from Cons.prems have ok: "stageOK m (p, rep)" and oks: "stagesOK (stepTok m st) sts"
    by (simp_all add: st)
  from Cons.prems(2) have plain: "hd p \<notin> fst ` set m \<longrightarrow> \<not> includesStr s p"
    by (simp add: st)
  from Cons.prems(2) have plains:
    "\<forall>st'\<in>set sts. hd (fst st') \<notin> fst ` set (stepTok m st) \<longrightarrow> \<not> includesStr s (fst st')"
    by (simp add: keys_stepTok)
  have "replaceEach (st # sts) (concat (map (tokOf m) s))
        = replaceEach sts (replaceAll p rep (concat (map (tokOf m) s)))"
    by (simp add: replaceEach_def st)
  also have "\<dots> = replaceEach sts (concat (map (tokOf (stepTok m st)) s))"
    using replaceAll_stage [OF ok plain] by (simp add: st)
  also have "\<dots> = concat (map (tokOf (foldl stepTok (stepTok m st) sts)) s)"
    using Cons.IH [OF oks plains] .
  finally show ?case by simp
qed

lemma replaceEach_Nil: "replaceEach sts [] = []"
  by (induction sts) (auto simp: replaceEach_def)

lemma replaceEach_append: "replaceEach (xs @ ys) s = replaceEach ys (replaceEach xs s)"
  by (simp add: replaceEach_def)

lemma repchar_stages: "repchar s = replaceEach repcharStages s"
  by (simp add: repchar_def replaceEach_def repcharStages_def)

lemma escapedcharPre_stages: "escapedcharPre s = replaceEach preStages s"
proof (cases "s = []")
  case True
  then show ?thesis by (simp add: escapedcharPre_def replaceEach_Nil)
next
  case False
  then show ?thesis by (simp add: escapedcharPre_def preStages_def replaceEach_def)
qed

lemma escapedcharPost_stages: "escapedcharPost s = replaceEach ESC_POST s"
  by (simp add: escapedcharPost_def replaceEach_Nil)

lemma stages_reserved_ok: "stagesOK reserved (repcharStages @ preStages @ ESC_POST)"
  by (simp add: reserved_def repcharStages_def preStages_def ESC_POST_def ESC_PRE_def
      stageOK_def stepTok_def contOK_def)

lemma stages_reserved_end: "foldl stepTok reserved (repcharStages @ preStages @ ESC_POST) = reserved"
  by (simp add: reserved_def repcharStages_def preStages_def ESC_POST_def ESC_PRE_def stepTok_def)

lemma tokOf_reserved: "concat (map (tokOf reserved) s) = s"
proof -
  have "tokOf reserved c = [c]" for c
    by (simp add: tokOf_def reserved_def)
  then show ?thesis by (induction s) auto
qed

lemma roundtrip_export:
  assumes "NL \<notin> set s" "CR \<notin> set s" "\<forall>p\<in>set placeholders. \<not> includesStr s p"
  shows "escapedcharPost (escapedcharPre (repchar s)) = s"
proof -
  have plain: "\<forall>st\<in>set (repcharStages @ preStages @ ESC_POST).
      hd (fst st) \<notin> fst ` set reserved \<longrightarrow> \<not> includesStr s (fst st)"
    using assms
    by (auto simp: reserved_def repcharStages_def preStages_def ESC_POST_def ESC_PRE_def
        placeholders_def includesStr_single)
  have "escapedcharPost (escapedcharPre (repchar s))
        = replaceEach (repcharStages @ preStages @ ESC_POST) (concat (map (tokOf reserved) s))"
    by (simp add: repchar_stages escapedcharPre_stages escapedcharPost_stages
        replaceEach_append tokOf_reserved)
  also have "\<dots> = concat (map (tokOf reserved) s)"
    using replaceEach_stages [OF stages_reserved_ok plain] unfolding stages_reserved_end .
  finally show ?thesis by (simp add: tokOf_reserved)
qed

lemma replaceAll_absent: "\<not> includesStr s p \<Longrightarrow> replaceAll p rep s = s"
  by (induction s) (auto simp: includesStr_Cons)

lemma replaceEach_absent: "\<forall>st\<in>set sts. \<not> includesStr s (fst st) \<Longrightarrow> replaceEach sts s = s"
proof (induction sts)
  case Nil
  then show ?case by (simp add: replaceEach_def)
next
  case (Cons st sts)
  obtain p rep where st: "st = (p, rep)" by (cases st)
  with Cons.prems have "replaceAll p rep s = s" by (simp add: replaceAll_absent)
  moreover have "replaceEach (st # sts) s = replaceEach sts (replaceAll p rep s)"
    by (simp add: replaceEach_def st)
  ultimately show ?case using Cons by simp
qed

lemma roundtrip_mask:
  assumes "\<forall>p\<in>set escapePairs \<union> set placeholders. \<not> includesStr s p"
  shows "escapedcharPost (escapedcharPre s) = s"
proof -
  from assms have "\<forall>st\<in>set (preStages @ ESC_POST). \<not> includesStr s (fst st)"
    by (auto simp: preStages_def ESC_POST_def ESC_PRE_def escapePairs_def placeholders_def)
  then have "replaceEach (preStages @ ESC_POST) s = s" by (rule replaceEach_absent)
  then show ?thesis
    by (simp add: escapedcharPre_stages escapedcharPost_stages replaceEach_append)
qed

text \<open>
  Each replacement of the mask and of its inverse makes a text lighter, where an ampersand
  weighs -3, a semicolon 0 and every other character 4. So a text that comes back from
  the two as it was has met none of their patterns.
\<close>

lemma startsWith_append_drop: "startsWith s p \<Longrightarrow> s = p @ drop (length p) s"
  by (induction s p rule: startsWith.induct) auto

lemma includesStr_step:
  "p \<noteq> [] \<Longrightarrow> includesStr (c # cs) p \<longleftrightarrow> startsWith (c # cs) p \<or> includesStr cs p"
  by (simp add: includesStr_def)

lemma replaceAll_weight:
  fixes w :: "char \<Rightarrow> int"
  assumes "p \<noteq> []"
  shows "\<exists>h::nat. sum_list (map w (replaceAll p r s))
            = sum_list (map w s) + int h * (sum_list (map w r) - sum_list (map w p))
          \<and> (h = 0 \<longleftrightarrow> \<not> includesStr s p)"
  using assms
proof (induction p r s rule: replaceAll.induct)
  case (1 p r)
  then show ?case by (simp add: includesStr_def)
next
  case (2 p r c cs)
  show ?case
  proof (cases "startsWith (c # cs) p")
    case True
    with 2 obtain h :: nat where h:
      "sum_list (map w (replaceAll p r (drop (length p) (c # cs))))
         = sum_list (map w (drop (length p) (c # cs)))
           + int h * (sum_list (map w r) - sum_list (map w p))"
      by blast
    from startsWith_append_drop [OF True]
    have "sum_list (map w (c # cs))
        = sum_list (map w p) + sum_list (map w (drop (length p) (c # cs)))"
      by (metis map_append sum_list.append)
    with h True 2(3)
    have "sum_list (map w (replaceAll p r (c # cs)))
        = sum_list (map w (c # cs)) + int (Suc h) * (sum_list (map w r) - sum_list (map w p))"
      by (simp add: algebra_simps del: replaceAll.simps add: replaceAll.simps(2) [of p r c cs])
    moreover from True 2(3) have "includesStr (c # cs) p" by (simp add: includesStr_step)
    ultimately show ?thesis by (metis nat.distinct(1))
  next
    case False
    with 2 obtain h :: nat where h:
      "sum_list (map w (replaceAll p r cs))
         = sum_list (map w cs) + int h * (sum_list (map w r) - sum_list (map w p))"
      "h = 0 \<longleftrightarrow> \<not> includesStr cs p"
      by blast
    with False 2(3) show ?thesis by (auto simp: includesStr_step)
  qed
qed


lemma replaceEach_Cons: "replaceEach ((p, r) # sts) s = replaceEach sts (replaceAll p r s)"
  by (simp add: replaceEach_def)

lemma replaceEach_weight:
  fixes w :: "char \<Rightarrow> int"
  assumes "\<forall>st\<in>set sts. fst st \<noteq> [] \<and> sum_list (map w (snd st)) < sum_list (map w (fst st))"
  shows "sum_list (map w (replaceEach sts s)) \<le> sum_list (map w s)
         \<and> (sum_list (map w (replaceEach sts s)) = sum_list (map w s)
              \<longrightarrow> (\<forall>st\<in>set sts. \<not> includesStr s (fst st)))"
  using assms
proof (induction sts arbitrary: s)
  case Nil
  then show ?case by (simp add: replaceEach_def)
next
  case (Cons st sts)
  obtain p r where st: "st = (p, r)" by (cases st)
  with Cons.prems have p: "p \<noteq> []" and lt: "sum_list (map w r) < sum_list (map w p)"
    by simp_all
  from replaceAll_weight [OF p, of w r s] obtain h :: nat where
    h: "sum_list (map w (replaceAll p r s))
          = sum_list (map w s) + int h * (sum_list (map w r) - sum_list (map w p))"
    and h0: "h = 0 \<longleftrightarrow> \<not> includesStr s p"
    by blast
  from lt have "int h * (sum_list (map w r) - sum_list (map w p)) \<le> 0"
    by (simp add: mult_nonneg_nonpos)
  with h have le1: "sum_list (map w (replaceAll p r s)) \<le> sum_list (map w s)" by simp
  have eq1: "\<not> includesStr s p" if "sum_list (map w (replaceAll p r s)) = sum_list (map w s)"
  proof -
    from that h have "int h * (sum_list (map w r) - sum_list (map w p)) = 0" by simp
    with lt have "h = 0" by simp
    with h0 show ?thesis by simp
  qed
  from Cons.prems have rest: "\<forall>st\<in>set sts. fst st \<noteq> []
      \<and> sum_list (map w (snd st)) < sum_list (map w (fst st))" by simp
  note ih = Cons.IH [OF rest, of "replaceAll p r s"]
  from ih le1 have le: "sum_list (map w (replaceEach (st # sts) s)) \<le> sum_list (map w s)"
    by (simp add: st replaceEach_Cons)
  have "\<forall>st'\<in>set (st # sts). \<not> includesStr s (fst st')"
    if e: "sum_list (map w (replaceEach (st # sts) s)) = sum_list (map w s)"
  proof -
    from e ih le1 have e1: "sum_list (map w (replaceAll p r s)) = sum_list (map w s)"
      and e2: "sum_list (map w (replaceEach sts (replaceAll p r s)))
                 = sum_list (map w (replaceAll p r s))"
      by (simp_all add: st replaceEach_Cons)
    from eq1 [OF e1] have a: "\<not> includesStr s p" .
    then have "replaceAll p r s = s" by (rule replaceAll_absent)
    with ih e2 have "\<forall>st\<in>set sts. \<not> includesStr s (fst st)" by simp
    with a st show ?thesis by simp
  qed
  with le show ?case by blast
qed

lemma mask_stages_weight:
  "\<forall>st\<in>set (preStages @ ESC_POST). fst st \<noteq> []
     \<and> sum_list (map (\<lambda>c. if c = CHR ''&'' then - 3 else if c = CHR '';'' then 0 else (4::int))
                     (snd st))
       < sum_list (map (\<lambda>c. if c = CHR ''&'' then - 3 else if c = CHR '';'' then 0 else 4)
                     (fst st))"
  by (simp add: preStages_def ESC_POST_def ESC_PRE_def)

lemma mask_stages_patterns:
  "fst ` set (preStages @ ESC_POST) = set escapePairs \<union> set placeholders"
  by (auto simp: preStages_def ESC_POST_def ESC_PRE_def escapePairs_def placeholders_def)

lemma roundtrip_mask_only:
  assumes "escapedcharPost (escapedcharPre s) = s"
  shows "\<forall>p\<in>set escapePairs \<union> set placeholders. \<not> includesStr s p"
proof -
  from assms have "replaceEach (preStages @ ESC_POST) s = s"
    by (simp add: escapedcharPre_stages escapedcharPost_stages replaceEach_append)
  with replaceEach_weight [OF mask_stages_weight, of s]
  have "\<forall>st\<in>set (preStages @ ESC_POST). \<not> includesStr s (fst st)" by simp
  then have "\<forall>p\<in>fst ` set (preStages @ ESC_POST). \<not> includesStr s p" by blast
  then show ?thesis by (simp only: mask_stages_patterns)
qed

text \<open>
  Claim C2, as stated, fails. Unmasking a masked text does not give the text back when
  the text holds one of the eight pairs that the mask replaces: backslash and colon come
  back as a colon alone, which is what the mask is for. A text that holds one of the eight
  placeholders comes back with the character of the placeholder in its place. A newline
  written by \<^verbatim>\<open>repchar\<close> as backslash and \<open>n\<close> comes back as the letter \<open>n\<close>, and a
  carriage return is dropped.
\<close>

theorem escape_inverse_counterexample:
  "escapedcharPost (escapedcharPre [BSL, BSL]) \<noteq> [BSL, BSL]
   \<and> escapedcharPost (escapedcharPre [BSL, CHR '':'']) \<noteq> [BSL, CHR '':'']
   \<and> escapedcharPost (escapedcharPre [BSL, CHR ''#'']) \<noteq> [BSL, CHR ''#'']
   \<and> escapedcharPost (escapedcharPre [BSL, CHR ''='']) \<noteq> [BSL, CHR ''='']
   \<and> escapedcharPost (escapedcharPre [BSL, CHR ''{'']) \<noteq> [BSL, CHR ''{'']
   \<and> escapedcharPost (escapedcharPre [BSL, CHR ''}'']) \<noteq> [BSL, CHR ''}'']
   \<and> escapedcharPost (escapedcharPre [BSL, CHR ''~'']) \<noteq> [BSL, CHR ''~'']
   \<and> escapedcharPost (escapedcharPre [BSL, CHR ''n'']) \<noteq> [BSL, CHR ''n'']
   \<and> escapedcharPost (escapedcharPre ''&&092;'') \<noteq> ''&&092;''
   \<and> escapedcharPost (escapedcharPre ''&&058;'') \<noteq> ''&&058;''
   \<and> escapedcharPost (escapedcharPre ''&&035;'') \<noteq> ''&&035;''
   \<and> escapedcharPost (escapedcharPre ''&&061;'') \<noteq> ''&&061;''
   \<and> escapedcharPost (escapedcharPre ''&&123;'') \<noteq> ''&&123;''
   \<and> escapedcharPost (escapedcharPre ''&&125;'') \<noteq> ''&&125;''
   \<and> escapedcharPost (escapedcharPre ''&&126;'') \<noteq> ''&&126;''
   \<and> escapedcharPost (escapedcharPre ''&&010'') \<noteq> ''&&010''
   \<and> escapedcharPost (escapedcharPre (repchar [NL])) \<noteq> [NL]
   \<and> escapedcharPost (escapedcharPre (repchar [CR])) \<noteq> [CR]
   \<and> escapedcharPost (escapedcharPre (repchar ''&&092;'')) \<noteq> ''&&092;''
   \<and> escapedcharPost (escapedcharPre (repchar ''&&058;'')) \<noteq> ''&&058;''
   \<and> escapedcharPost (escapedcharPre (repchar ''&&035;'')) \<noteq> ''&&035;''
   \<and> escapedcharPost (escapedcharPre (repchar ''&&061;'')) \<noteq> ''&&061;''
   \<and> escapedcharPost (escapedcharPre (repchar ''&&123;'')) \<noteq> ''&&123;''
   \<and> escapedcharPost (escapedcharPre (repchar ''&&125;'')) \<noteq> ''&&125;''
   \<and> escapedcharPost (escapedcharPre (repchar ''&&126;'')) \<noteq> ''&&126;''
   \<and> escapedcharPost (escapedcharPre (repchar ''&&010'')) \<noteq> ''&&010''"
  by code_simp

text \<open>
  Claim C2, amended: unmasking the masked \<open>s\<close> gives \<open>s\<close> exactly for the texts \<open>s\<close> that
  hold none of the eight pairs that the mask replaces and none of the eight placeholders;
  and for every text \<open>s\<close> with no newline, no carriage return and none of the eight
  placeholders (backslashes, ampersands and the reserved characters \<^verbatim>\<open>: # = { } ~\<close>
  are allowed), escaping \<open>s\<close> for export, masking and unmasking gives \<open>s\<close> exactly.
\<close>

theorem escape_roundtrip:
  "(escapedcharPost (escapedcharPre s) = s
       \<longleftrightarrow> (\<forall>p\<in>set escapePairs \<union> set placeholders. \<not> includesStr s p))
   \<and> (NL \<notin> set s \<and> CR \<notin> set s \<and> (\<forall>p\<in>set placeholders. \<not> includesStr s p)
        \<longrightarrow> escapedcharPost (escapedcharPre (repchar s)) = s)"
  using roundtrip_mask [of s] roundtrip_mask_only [of s] roundtrip_export [of s] by blast

theorem escape_roundtrip_witness:
  "filter (includesStr (''Tom & Jerry: a'' @ [BSL] @ ''b, x &lt; y &&05'')) (escapePairs @ placeholders) = []
   \<and> escapedcharPost (escapedcharPre (''Tom & Jerry: a'' @ [BSL] @ ''b, x &lt; y &&05'')) = ''Tom & Jerry: a'' @ [BSL] @ ''b, x &lt; y &&05''
   \<and> filter (\<lambda>c. c = NL \<or> c = CR) ([BSL] @ '':#={}~ Tom && Jerry &058; '' @ [BSL, CHR ''n'', BSL, BSL, CHR '':'']) = []
   \<and> filter (includesStr ([BSL] @ '':#={}~ Tom && Jerry &058; '' @ [BSL, CHR ''n'', BSL, BSL, CHR '':''])) placeholders = []
   \<and> escapedcharPost (escapedcharPre (repchar ([BSL] @ '':#={}~ Tom && Jerry &058; '' @ [BSL, CHR ''n'', BSL, BSL, CHR '':'']))) = [BSL] @ '':#={}~ Tom && Jerry &058; '' @ [BSL, CHR ''n'', BSL, BSL, CHR '':'']"
proof -
  have h1: "filter (includesStr (''Tom & Jerry: a'' @ [BSL] @ ''b, x &lt; y &&05'')) (escapePairs @ placeholders) = []"
    by code_simp
  have h2: "filter (\<lambda>c. c = NL \<or> c = CR) ([BSL] @ '':#={}~ Tom && Jerry &058; '' @ [BSL, CHR ''n'', BSL, BSL, CHR '':'']) = []"
    by code_simp
  have h3: "filter (includesStr ([BSL] @ '':#={}~ Tom && Jerry &058; '' @ [BSL, CHR ''n'', BSL, BSL, CHR '':''])) placeholders = []"
    by code_simp
  from h1 have "\<forall>p\<in>set escapePairs \<union> set placeholders. \<not> includesStr (''Tom & Jerry: a'' @ [BSL] @ ''b, x &lt; y &&05'') p"
    by (auto simp only: filter_empty_conv set_append)
  with escape_roundtrip [of "''Tom & Jerry: a'' @ [BSL] @ ''b, x &lt; y &&05''"]
  have c1: "escapedcharPost (escapedcharPre (''Tom & Jerry: a'' @ [BSL] @ ''b, x &lt; y &&05'')) = ''Tom & Jerry: a'' @ [BSL] @ ''b, x &lt; y &&05''"
    by blast
  from h2 have "NL \<notin> set ([BSL] @ '':#={}~ Tom && Jerry &058; '' @ [BSL, CHR ''n'', BSL, BSL, CHR '':''])" "CR \<notin> set ([BSL] @ '':#={}~ Tom && Jerry &058; '' @ [BSL, CHR ''n'', BSL, BSL, CHR '':''])"
    by (auto simp only: filter_empty_conv)
  moreover from h3 have "\<forall>p\<in>set placeholders. \<not> includesStr ([BSL] @ '':#={}~ Tom && Jerry &058; '' @ [BSL, CHR ''n'', BSL, BSL, CHR '':'']) p"
    by (auto simp only: filter_empty_conv)
  ultimately have c2: "escapedcharPost (escapedcharPre (repchar ([BSL] @ '':#={}~ Tom && Jerry &058; '' @ [BSL, CHR ''n'', BSL, BSL, CHR '':'']))) = [BSL] @ '':#={}~ Tom && Jerry &058; '' @ [BSL, CHR ''n'', BSL, BSL, CHR '':'']"
    using escape_roundtrip [of "[BSL] @ '':#={}~ Tom && Jerry &058; '' @ [BSL, CHR ''n'', BSL, BSL, CHR '':'']"] by blast
  from h1 h2 h3 c1 c2 show ?thesis by (simp only: simp_thms)
qed

section \<open>The bare wildcard of a numerical question\<close>

text \<open>
  Claim C7, at the input \<^verbatim>\<open>N {#*#any}\<close>. The check of a bare value lets the text
  \<^verbatim>\<open>*\<close> pass, but the value kept is what \<^verbatim>\<open>parseFloat\<close> made of it, which is
  \<^verbatim>\<open>NaN\<close>, with tolerance 0 and fraction 1: no wildcard. The entry for the text after a
  \<^verbatim>\<open>~\<close> keeps the text \<^verbatim>\<open>*\<close>, and the exporter tests for that text: an answer
  \<^verbatim>\<open>*\<close> is written as the line of the wildcard, the parsed bare \<^verbatim>\<open>*\<close> as a value
  \<^verbatim>\<open>null\<close> with tolerance 0.
\<close>

theorem bare_star_is_NaN:
  "parseGift ''N {#*#any}''
     = Inr [\<lparr>qid = None, name = ''N'', questiontext = ''N'', questiontextformat = MOODLE,
             generalfeedback = [], generalfeedbackformat = MOODLE, idnumber = [], tags = [],
             variant = Numerical
               [\<lparr>answer = Num NaN, answerformat = None, tolerance = Some (Tol (Fin 0)),
                 fraction = Fin 1, feedback = ''any'', feedbackformat = MOODLE\<rparr>]\<rparr>]
   \<and> parseGift ''N {#1~#any}''
     = Inr [\<lparr>qid = None, name = ''N'', questiontext = ''N'', questiontextformat = MOODLE,
             generalfeedback = [], generalfeedbackformat = MOODLE, idnumber = [], tags = [],
             variant = Numerical
               [\<lparr>answer = Num (Fin 1), answerformat = None, tolerance = Some (Tol (Fin 0)),
                 fraction = Fin 1, feedback = [], feedbackformat = MOODLE\<rparr>,
                \<lparr>answer = Txt ''*'', answerformat = None, tolerance = Some NoTol,
                 fraction = Fin 0, feedback = ''any'', feedbackformat = MOODLE\<rparr>]\<rparr>]
   \<and> exportQuestions
        [\<lparr>qid = None, name = ''N'', questiontext = ''N'', questiontextformat = MOODLE,
          generalfeedback = [], generalfeedbackformat = MOODLE, idnumber = [], tags = [],
          variant = Numerical
            [\<lparr>answer = Num NaN, answerformat = None, tolerance = Some (Tol (Fin 0)),
              fraction = Fin 1, feedback = ''any'', feedbackformat = MOODLE\<rparr>]\<rparr>]
     = Inr (''// question:   name: N'' @ [NL] @ ''::N::N{#'' @ [NL, TAB] @ ''=%100%null:0#any''
            @ [NL] @ ''}'' @ [NL, NL])
   \<and> exportQuestions
        [\<lparr>qid = None, name = ''N'', questiontext = ''N'', questiontextformat = MOODLE,
          generalfeedback = [], generalfeedbackformat = MOODLE, idnumber = [], tags = [],
          variant = Numerical
            [\<lparr>answer = Txt ''*'', answerformat = None, tolerance = Some NoTol,
              fraction = Fin 0, feedback = ''any'', feedbackformat = MOODLE\<rparr>]\<rparr>]
     = Inr (''// question:   name: N'' @ [NL] @ ''::N::N{#'' @ [NL, TAB] @ ''~#any''
            @ [NL] @ ''}'' @ [NL, NL])"
  by code_simp

section \<open>One failure ends the call\<close>

lemma layout_length: "0 < length (layout b q)"
  by (simp add: layout_def Let_def)

lemma allocate_fresh: "fresh (fst (allocate st q)) = fresh st + length (layout (fresh st) q)"
  by (simp add: allocate_def Let_def)

lemma allocate_seen: "seen (fst (allocate st q)) = seen st"
  by (simp add: allocate_def Let_def)

lemma allocate_old: "a < fresh st \<Longrightarrow> cells (fst (allocate st q)) a = cells st a"
  by (simp add: allocate_def Let_def)

lemma allocate_new:
  "i < length (layout (fresh st) q) \<Longrightarrow>
   cells (fst (allocate st q)) (fresh st + i) = layout (fresh st) q ! i"
  by (simp add: allocate_def Let_def)

lemma allocate_root: "snd (allocate st q) = fresh st + (length (layout (fresh st) q) - 1)"
  using layout_length [of "fresh st" q]
  by (cases "layout (fresh st) q") (simp_all add: allocate_def Let_def)

lemma map_filter_upt:
  "(\<And>i. i < length xs \<Longrightarrow> f (b + i) = Some (xs ! i)) \<Longrightarrow>
   List.map_filter f [b..<b + length xs] = xs"
proof (induction xs arbitrary: b)
  case Nil
  then show ?case by simp
next
  case (Cons x xs)
  from Cons.prems [of 0] have h: "f b = Some x" by simp
  have "\<And>i. i < length xs \<Longrightarrow> f (Suc b + i) = Some (xs ! i)"
    using Cons.prems [of "Suc i" for i] by simp
  from Cons.IH [OF this] have "List.map_filter f [Suc b..<Suc b + length xs] = xs" .
  moreover have "[b..<b + length (x # xs)] = b # [Suc b..<Suc b + length xs]"
    using upt_conv_Cons [of b "b + length (x # xs)"] by simp
  ultimately show ?case using h by simp
qed

lemma readAnswers_new:
  assumes arr: "cells st a = ArrayCell [b..<b + length xs]"
    and el: "\<And>i. i < length xs \<Longrightarrow> cells st (b + i) = AnswerCell (xs ! i)"
  shows "readAnswers st a = xs"
proof -
  have "List.map_filter (\<lambda>r. case cells st r of AnswerCell x \<Rightarrow> Some x | _ \<Rightarrow> None)
          [b..<b + length xs] = xs"
    by (rule map_filter_upt) (simp add: el)
  with arr show ?thesis by (simp add: readAnswers_def)
qed

lemma readSubquestions_new:
  assumes arr: "cells st a = ArrayCell [b..<b + length xs]"
    and el: "\<And>i. i < length xs \<Longrightarrow> cells st (b + i) = SubquestionCell (xs ! i)"
  shows "readSubquestions st a = xs"
proof -
  have "List.map_filter (\<lambda>r. case cells st r of SubquestionCell x \<Rightarrow> Some x | _ \<Rightarrow> None)
          [b..<b + length xs] = xs"
    by (rule map_filter_upt) (simp add: el)
  with arr show ?thesis by (simp add: readSubquestions_def)
qed


lemma load_allocate:
  "fst (load (fst (allocate st q)) (snd (allocate st q))) = q"
  "\<forall>a\<in>set (snd (load (fst (allocate st q)) (snd (allocate st q)))).
      fresh st \<le> a \<and> a < fresh (fst (allocate st q))"
proof -
  define b where "b = fresh st"
  define st' where "st' = fst (allocate st q)"
  define cs where "cs = layout b q"
  have new: "\<And>i. i < length cs \<Longrightarrow> cells st' (b + i) = cs ! i"
    unfolding b_def st'_def cs_def by (rule allocate_new)
  have root: "snd (allocate st q) = b + (length cs - 1)"
    unfolding b_def cs_def by (rule allocate_root)
  have fr: "fresh st' = b + length cs"
    unfolding b_def st'_def cs_def by (rule allocate_fresh)
  have tg: "cells st' b = TagsCell (tags q)"
    using new [of 0] by (simp add: cs_def layout_def Let_def)
  have both: "fst (load st' (b + (length cs - 1))) = q
      \<and> (\<forall>a\<in>set (snd (load st' (b + (length cs - 1)))). b \<le> a \<and> a < b + length cs)"
  proof (cases "variant q")
    case (Category c)
    then have cs: "cs = [TagsCell (tags q), QuestionCell
        \<lparr>qid = qid q, name = name q, questiontext = questiontext q,
         questiontextformat = questiontextformat q, generalfeedback = generalfeedback q,
         generalfeedbackformat = generalfeedbackformat q, idnumber = idnumber q,
         tags = b, variant = Category c\<rparr>]"
      by (simp add: cs_def layout_def)
    with new [of 1] tg Category show ?thesis
      by (simp add: load_def readTags_def)
  next
    case Description
    then have cs: "cs = [TagsCell (tags q), QuestionCell
        \<lparr>qid = qid q, name = name q, questiontext = questiontext q,
         questiontextformat = questiontextformat q, generalfeedback = generalfeedback q,
         generalfeedbackformat = generalfeedbackformat q, idnumber = idnumber q,
         tags = b, variant = Description\<rparr>]"
      by (simp add: cs_def layout_def)
    with new [of 1] tg Description show ?thesis
      by (simp add: load_def readTags_def)
  next
    case Essay
    then have cs: "cs = [TagsCell (tags q), QuestionCell
        \<lparr>qid = qid q, name = name q, questiontext = questiontext q,
         questiontextformat = questiontextformat q, generalfeedback = generalfeedback q,
         generalfeedbackformat = generalfeedbackformat q, idnumber = idnumber q,
         tags = b, variant = Essay\<rparr>]"
      by (simp add: cs_def layout_def)
    with new [of 1] tg Essay show ?thesis
      by (simp add: load_def readTags_def)
  next
    case (Other t)
    then have cs: "cs = [TagsCell (tags q), QuestionCell
        \<lparr>qid = qid q, name = name q, questiontext = questiontext q,
         questiontextformat = questiontextformat q, generalfeedback = generalfeedback q,
         generalfeedbackformat = generalfeedbackformat q, idnumber = idnumber q,
         tags = b, variant = Other t\<rparr>]"
      by (simp add: cs_def layout_def)
    with new [of 1] tg Other show ?thesis
      by (simp add: load_def readTags_def)
  next
    case (Truefalse c t f)
    then have cs: "cs = [TagsCell (tags q), TextCell t, TextCell f, QuestionCell
        \<lparr>qid = qid q, name = name q, questiontext = questiontext q,
         questiontextformat = questiontextformat q, generalfeedback = generalfeedback q,
         generalfeedbackformat = generalfeedbackformat q, idnumber = idnumber q,
         tags = b, variant = Truefalse c (b + 1) (b + 2)\<rparr>]"
      by (simp add: cs_def layout_def)
    with new [of 1] new [of 2] new [of 3] tg Truefalse show ?thesis
      by (simp add: load_def readTags_def readText_def eval_nat_numeral)
  next
    case (Multichoice single xs)
    then have cs: "cs = TagsCell (tags q) # map AnswerCell xs @
        [ArrayCell [b + 1..<b + 1 + length xs], QuestionCell
        \<lparr>qid = qid q, name = name q, questiontext = questiontext q,
         questiontextformat = questiontextformat q, generalfeedback = generalfeedback q,
         generalfeedbackformat = generalfeedbackformat q, idnumber = idnumber q,
         tags = b, variant = Multichoice single (b + 1 + length xs)\<rparr>]"
      by (simp add: cs_def layout_def)
    then have len: "length cs = length xs + 3" by simp
    have el: "\<And>i. i < length xs \<Longrightarrow> cells st' (b + 1 + i) = AnswerCell (xs ! i)"
      using new [of "Suc i" for i] by (simp add: cs len nth_append)
    have ar: "cells st' (b + 1 + length xs) = ArrayCell [b + 1..<b + 1 + length xs]"
      using new [of "Suc (length xs)"] by (simp add: cs len nth_append)
    have rt: "cells st' (b + (length cs - 1)) = QuestionCell
        \<lparr>qid = qid q, name = name q, questiontext = questiontext q,
         questiontextformat = questiontextformat q, generalfeedback = generalfeedback q,
         generalfeedbackformat = generalfeedbackformat q, idnumber = idnumber q,
         tags = b, variant = Multichoice single (b + 1 + length xs)\<rparr>"
      using new [of "length xs + 2"] by (simp add: cs len nth_append)
    from readAnswers_new [OF ar el] have "readAnswers st' (b + 1 + length xs) = xs" .
    with rt tg ar Multichoice len show ?thesis
      by (auto simp: load_def readTags_def arrayCells_def)
  next
    case (Shortanswer xs)
    then have cs: "cs = TagsCell (tags q) # map AnswerCell xs @
        [ArrayCell [b + 1..<b + 1 + length xs], QuestionCell
        \<lparr>qid = qid q, name = name q, questiontext = questiontext q,
         questiontextformat = questiontextformat q, generalfeedback = generalfeedback q,
         generalfeedbackformat = generalfeedbackformat q, idnumber = idnumber q,
         tags = b, variant = Shortanswer (b + 1 + length xs)\<rparr>]"
      by (simp add: cs_def layout_def)
    then have len: "length cs = length xs + 3" by simp
    have el: "\<And>i. i < length xs \<Longrightarrow> cells st' (b + 1 + i) = AnswerCell (xs ! i)"
      using new [of "Suc i" for i] by (simp add: cs len nth_append)
    have ar: "cells st' (b + 1 + length xs) = ArrayCell [b + 1..<b + 1 + length xs]"
      using new [of "Suc (length xs)"] by (simp add: cs len nth_append)
    have rt: "cells st' (b + (length cs - 1)) = QuestionCell
        \<lparr>qid = qid q, name = name q, questiontext = questiontext q,
         questiontextformat = questiontextformat q, generalfeedback = generalfeedback q,
         generalfeedbackformat = generalfeedbackformat q, idnumber = idnumber q,
         tags = b, variant = Shortanswer (b + 1 + length xs)\<rparr>"
      using new [of "length xs + 2"] by (simp add: cs len nth_append)
    from readAnswers_new [OF ar el] have "readAnswers st' (b + 1 + length xs) = xs" .
    with rt tg ar Shortanswer len show ?thesis
      by (auto simp: load_def readTags_def arrayCells_def)
  next
    case (Numerical xs)
    then have cs: "cs = TagsCell (tags q) # map AnswerCell xs @
        [ArrayCell [b + 1..<b + 1 + length xs], QuestionCell
        \<lparr>qid = qid q, name = name q, questiontext = questiontext q,
         questiontextformat = questiontextformat q, generalfeedback = generalfeedback q,
         generalfeedbackformat = generalfeedbackformat q, idnumber = idnumber q,
         tags = b, variant = Numerical (b + 1 + length xs)\<rparr>]"
      by (simp add: cs_def layout_def)
    then have len: "length cs = length xs + 3" by simp
    have el: "\<And>i. i < length xs \<Longrightarrow> cells st' (b + 1 + i) = AnswerCell (xs ! i)"
      using new [of "Suc i" for i] by (simp add: cs len nth_append)
    have ar: "cells st' (b + 1 + length xs) = ArrayCell [b + 1..<b + 1 + length xs]"
      using new [of "Suc (length xs)"] by (simp add: cs len nth_append)
    have rt: "cells st' (b + (length cs - 1)) = QuestionCell
        \<lparr>qid = qid q, name = name q, questiontext = questiontext q,
         questiontextformat = questiontextformat q, generalfeedback = generalfeedback q,
         generalfeedbackformat = generalfeedbackformat q, idnumber = idnumber q,
         tags = b, variant = Numerical (b + 1 + length xs)\<rparr>"
      using new [of "length xs + 2"] by (simp add: cs len nth_append)
    from readAnswers_new [OF ar el] have "readAnswers st' (b + 1 + length xs) = xs" .
    with rt tg ar Numerical len show ?thesis
      by (auto simp: load_def readTags_def arrayCells_def)
  next
    case (Match xs)
    then have cs: "cs = TagsCell (tags q) # map SubquestionCell xs @
        [ArrayCell [b + 1..<b + 1 + length xs], QuestionCell
        \<lparr>qid = qid q, name = name q, questiontext = questiontext q,
         questiontextformat = questiontextformat q, generalfeedback = generalfeedback q,
         generalfeedbackformat = generalfeedbackformat q, idnumber = idnumber q,
         tags = b, variant = Match (b + 1 + length xs)\<rparr>]"
      by (simp add: cs_def layout_def)
    then have len: "length cs = length xs + 3" by simp
    have el: "\<And>i. i < length xs \<Longrightarrow> cells st' (b + 1 + i) = SubquestionCell (xs ! i)"
      using new [of "Suc i" for i] by (simp add: cs len nth_append)
    have ar: "cells st' (b + 1 + length xs) = ArrayCell [b + 1..<b + 1 + length xs]"
      using new [of "Suc (length xs)"] by (simp add: cs len nth_append)
    have rt: "cells st' (b + (length cs - 1)) = QuestionCell
        \<lparr>qid = qid q, name = name q, questiontext = questiontext q,
         questiontextformat = questiontextformat q, generalfeedback = generalfeedback q,
         generalfeedbackformat = generalfeedbackformat q, idnumber = idnumber q,
         tags = b, variant = Match (b + 1 + length xs)\<rparr>"
      using new [of "length xs + 2"] by (simp add: cs len nth_append)
    from readSubquestions_new [OF ar el] have "readSubquestions st' (b + 1 + length xs) = xs" .
    with rt tg ar Match len show ?thesis
      by (auto simp: load_def readTags_def arrayCells_def)
  qed
  from both show "fst (load (fst (allocate st q)) (snd (allocate st q))) = q"
    by (simp add: root st'_def)
  from both show "\<forall>a\<in>set (snd (load (fst (allocate st q)) (snd (allocate st q)))).
      fresh st \<le> a \<and> a < fresh (fst (allocate st q))"
    using fr by (simp add: root st'_def b_def)
qed

lemma parseLines_error:
  "firstError (map parseQuestion (blocksOf ls buf)) = Some e \<Longrightarrow> parseLines ls buf qs = Inl e"
proof (induction ls arbitrary: buf qs)
  case Nil
  then show ?case by (auto simp: flush_def split: if_splits sum.splits option.splits)
next
  case (Cons l ls)
  then show ?case
    by (cases "parseQuestion buf") (auto simp: flush_def split: if_splits option.splits)
qed

lemma parseLines_ok:
  "firstError (map parseQuestion (blocksOf ls buf)) = None \<Longrightarrow> \<exists>qs'. parseLines ls buf qs = Inr qs'"
proof (induction ls arbitrary: buf qs)
  case Nil
  then show ?case
    by (cases "parseQuestion buf") (auto simp: flush_def split: if_splits option.splits)
next
  case (Cons l ls)
  then show ?case
    by (cases "parseQuestion buf") (auto simp: flush_def split: if_splits option.splits)
qed

lemma firstError_member:
  "Inl e \<in> set rs \<Longrightarrow> \<exists>e'. firstError rs = Some e'"
proof (induction rs)
  case Nil
  then show ?case by simp
next
  case (Cons r rs)
  then show ?case by (cases r) auto
qed

lemma writeCopy_error:
  "writeCopy q = Inl e \<longleftrightarrow> (\<exists>t. variant q = Other t \<and> e = Error (''Unsupported qtype in exporter: '' @ t))"
  unfolding writeCopy_def Let_def by (cases "variant q") auto

lemma clone_Other: "variant (clone q) = Other t \<longleftrightarrow> variant q = Other t"
  unfolding clone_def by (cases "variant q") auto


lemma writeOne_result: "snd (writeOne st r) = writeCopy (clone (objects st r))"
  using load_allocate(1) [of st "clone (objects st r)"]
  by (simp add: writeOne_def cloneObject_def Let_def case_prod_beta)

lemma writeOne_cells: "a < fresh st \<Longrightarrow> cells (fst (writeOne st r)) a = cells st a"
  using allocate_old [of a st "clone (objects st r)"]
  by (simp add: writeOne_def cloneObject_def Let_def case_prod_beta)

lemma writeOne_fresh: "fresh st \<le> fresh (fst (writeOne st r))"
  using allocate_fresh [of st "clone (objects st r)"]
  by (simp add: writeOne_def cloneObject_def Let_def case_prod_beta)

lemma writeOne_seen:
  "\<exists>new. seen (fst (writeOne st r)) = seen st @ new
     \<and> (\<forall>a\<in>set new. fresh st \<le> a \<and> a < fresh (fst (writeOne st r)))"
  using load_allocate(2) [of st "clone (objects st r)"] allocate_seen [of st "clone (objects st r)"]
  by (simp add: writeOne_def cloneObject_def Let_def case_prod_beta)

lemma exportLoop_frame:
  "fresh st \<le> fresh (fst (exportLoop st rs out))
   \<and> (\<forall>a < fresh st. cells (fst (exportLoop st rs out)) a = cells st a)
   \<and> (\<exists>new. seen (fst (exportLoop st rs out)) = seen st @ new
          \<and> (\<forall>a\<in>set new. fresh st \<le> a \<and> a < fresh (fst (exportLoop st rs out))))"
proof (induction rs arbitrary: st out)
  case Nil
  then show ?case by simp
next
  case (Cons r rs)
  obtain st1 res where w: "writeOne st r = (st1, res)" by (cases "writeOne st r")
  with writeOne_cells [of _ st r] writeOne_fresh [of st r] writeOne_seen [of st r]
  obtain new1 where st1: "fresh st \<le> fresh st1" "\<forall>a < fresh st. cells st1 a = cells st a"
    "seen st1 = seen st @ new1" "\<forall>a\<in>set new1. fresh st \<le> a \<and> a < fresh st1"
    by auto
  show ?case
  proof (cases res)
    case (Inl e)
    with w st1 show ?thesis by simp
  next
    case (Inr written)
    with w have eq: "exportLoop st (r # rs) out = exportLoop st1 rs (out @ [written])" by simp
    from Cons.IH [of st1 "out @ [written]"] obtain new2 where
      ih: "fresh st1 \<le> fresh (fst (exportLoop st1 rs (out @ [written])))"
      "\<forall>a < fresh st1. cells (fst (exportLoop st1 rs (out @ [written]))) a = cells st1 a"
      "seen (fst (exportLoop st1 rs (out @ [written]))) = seen st1 @ new2"
      "\<forall>a\<in>set new2. fresh st1 \<le> a \<and> a < fresh (fst (exportLoop st1 rs (out @ [written])))"
      by blast
    have "seen (fst (exportLoop st1 rs (out @ [written]))) = seen st @ (new1 @ new2)"
      using ih(3) st1(3) by simp
    moreover have "\<forall>a\<in>set (new1 @ new2).
        fresh st \<le> a \<and> a < fresh (fst (exportLoop st1 rs (out @ [written])))"
      using ih(1,4) st1(1,4) by fastforce
    ultimately have "\<exists>new. seen (fst (exportLoop st1 rs (out @ [written]))) = seen st @ new
        \<and> (\<forall>a\<in>set new. fresh st \<le> a \<and> a < fresh (fst (exportLoop st1 rs (out @ [written]))))"
      by blast
    with ih(1,2) st1(1,2) show ?thesis unfolding eq by auto
  qed
qed

lemma exportGift_store: "fst (exportGift st rs) = fst (exportLoop st rs [])"
  unfolding exportGift_def by (auto split: prod.splits sum.splits)

lemma unsupported_cell:
  "unsupported (objects st r) \<longleftrightarrow>
     (case cells st r of
        QuestionCell ob \<Rightarrow> (case variant ob of Other t \<Rightarrow> True | _ \<Rightarrow> False)
      | _ \<Rightarrow> True)"
  by (simp add: unsupported_def objects_def load_def defaultQuestion_def
      split: cell.splits variantOf.splits)

lemma exportLoop_unsupported:
  assumes "\<forall>r\<in>set rs. r < fresh st" and "r \<in> set rs" and "unsupported (objects st r)"
  shows "\<exists>t. snd (exportLoop st rs out) = Inl (Error (''Unsupported qtype in exporter: '' @ t))"
  using assms
proof (induction rs arbitrary: st out)
  case Nil
  then show ?case by simp
next
  case (Cons x rs)
  obtain st1 res where w: "writeOne st x = (st1, res)" by (cases "writeOne st x")
  with writeOne_cells [of _ st x] writeOne_fresh [of st x] writeOne_result [of st x]
  have st1: "fresh st \<le> fresh st1" "\<forall>a < fresh st. cells st1 a = cells st a"
    and res: "res = writeCopy (clone (objects st x))" by auto
  show ?case
  proof (cases res)
    case (Inl e)
    with res obtain t where "e = Error (''Unsupported qtype in exporter: '' @ t)"
      using writeCopy_error [of "clone (objects st x)" e] by auto
    with Inl w show ?thesis by simp
  next
    case (Inr written)
    have "\<not> unsupported (objects st x)"
    proof
      assume "unsupported (objects st x)"
      then obtain t where "variant (objects st x) = Other t"
        by (auto simp: unsupported_def split: variantOf.splits)
      then have "variant (clone (objects st x)) = Other t" by (simp add: clone_Other)
      then have "writeCopy (clone (objects st x))
          = Inl (Error (''Unsupported qtype in exporter: '' @ t))"
        by (simp add: writeCopy_error)
      with Inr res show False by simp
    qed
    with Cons.prems have r: "r \<in> set rs" by auto
    with Cons.prems have "r < fresh st" by auto
    with st1 Cons.prems(3) have "unsupported (objects st1 r)"
      by (simp add: unsupported_cell)
    moreover from Cons.prems st1 have "\<forall>r\<in>set rs. r < fresh st1" by auto
    ultimately show ?thesis
      using Cons.IH [of st1 "out @ [written]"] r Inr w by simp
  qed
qed


lemma map_filter_cong_set:
  "(\<And>x. x \<in> set xs \<Longrightarrow> f x = g x) \<Longrightarrow> List.map_filter f xs = List.map_filter g xs"
  by (induction xs) (simp_all add: List.map_filter_simps split: option.splits)

lemma readAnswers_cong:
  assumes "\<forall>a\<in>set (arrayCells st r). cells st' a = cells st a"
  shows "readAnswers st' r = readAnswers st r"
proof (cases "cells st r")
  case (ArrayCell rs)
  with assms have r: "cells st' r = ArrayCell rs" and el: "\<And>x. x \<in> set rs \<Longrightarrow> cells st' x = cells st x"
    by (simp_all add: arrayCells_def)
  have "List.map_filter (\<lambda>r. case cells st' r of AnswerCell x \<Rightarrow> Some x | _ \<Rightarrow> None) rs
      = List.map_filter (\<lambda>r. case cells st r of AnswerCell x \<Rightarrow> Some x | _ \<Rightarrow> None) rs"
    by (rule map_filter_cong_set) (simp only: el)
  with r ArrayCell show ?thesis by (simp only: readAnswers_def cell.case)
qed (use assms in \<open>simp_all add: readAnswers_def arrayCells_def\<close>)

lemma readSubquestions_cong:
  assumes "\<forall>a\<in>set (arrayCells st r). cells st' a = cells st a"
  shows "readSubquestions st' r = readSubquestions st r"
proof (cases "cells st r")
  case (ArrayCell rs)
  with assms have r: "cells st' r = ArrayCell rs" and el: "\<And>x. x \<in> set rs \<Longrightarrow> cells st' x = cells st x"
    by (simp_all add: arrayCells_def)
  have "List.map_filter (\<lambda>r. case cells st' r of SubquestionCell x \<Rightarrow> Some x | _ \<Rightarrow> None) rs
      = List.map_filter (\<lambda>r. case cells st r of SubquestionCell x \<Rightarrow> Some x | _ \<Rightarrow> None) rs"
    by (rule map_filter_cong_set) (simp only: el)
  with r ArrayCell show ?thesis by (simp only: readSubquestions_def cell.case)
qed (use assms in \<open>simp_all add: readSubquestions_def arrayCells_def\<close>)

lemma arrayCells_cong: "cells st' r = cells st r \<Longrightarrow> arrayCells st' r = arrayCells st r"
  by (simp add: arrayCells_def)


lemma load_cong:
  assumes "\<forall>a\<in>set (snd (load st r)). cells st' a = cells st a"
  shows "load st' r = load st r"
proof (cases "cells st r")
  case (QuestionCell ob)
  with assms have r: "cells st' r = QuestionCell ob" and t: "cells st' (tags ob) = cells st (tags ob)"
    by (simp_all add: load_def)
  from t have tg: "readTags st' (tags ob) = readTags st (tags ob)" by (simp add: readTags_def)
  have arr: "readAnswers st' a = readAnswers st a \<and> readSubquestions st' a = readSubquestions st a
      \<and> arrayCells st' a = arrayCells st a"
    if "\<forall>x\<in>set (arrayCells st a). cells st' x = cells st x" for a
  proof -
    from that have "cells st' a = cells st a" by (simp add: arrayCells_def split: cell.splits)
    then have "arrayCells st' a = arrayCells st a" by (rule arrayCells_cong)
    with readAnswers_cong [OF that] readSubquestions_cong [OF that] show ?thesis by simp
  qed
  show ?thesis
  proof (cases "variant ob")
    case (Multichoice single a)
    with assms QuestionCell have "\<forall>x\<in>set (arrayCells st a). cells st' x = cells st x"
      by (simp add: load_def)
    from arr [OF this] show ?thesis using QuestionCell r tg Multichoice by (simp add: load_def)
  next
    case (Match a)
    with assms QuestionCell have "\<forall>x\<in>set (arrayCells st a). cells st' x = cells st x"
      by (simp add: load_def)
    from arr [OF this] show ?thesis using QuestionCell r tg Match by (simp add: load_def)
  next
    case (Shortanswer a)
    with assms QuestionCell have "\<forall>x\<in>set (arrayCells st a). cells st' x = cells st x"
      by (simp add: load_def)
    from arr [OF this] show ?thesis using QuestionCell r tg Shortanswer by (simp add: load_def)
  next
    case (Numerical a)
    with assms QuestionCell have "\<forall>x\<in>set (arrayCells st a). cells st' x = cells st x"
      by (simp add: load_def)
    from arr [OF this] show ?thesis using QuestionCell r tg Numerical by (simp add: load_def)
  next
    case (Truefalse c t f)
    with assms QuestionCell have "cells st' t = cells st t" "cells st' f = cells st f"
      by (simp_all add: load_def)
    then show ?thesis using QuestionCell r tg Truefalse by (simp add: load_def readText_def)
  qed (use QuestionCell r tg in \<open>simp_all add: load_def\<close>)
qed (use assms in \<open>simp_all add: load_def\<close>)

text \<open>
  Claim C9: where a block of the input fails to parse, \<^verbatim>\<open>parseGift\<close> returns the
  error of the first such block and no list of questions; and where one of the objects
  handed to \<^verbatim>\<open>exportGift\<close> has a \<^verbatim>\<open>qtype\<close> that the exporter does not write, the
  call returns the error for an unsupported kind and no text.
\<close>

theorem all_or_nothing:
  "(b \<in> set (questionBlocks input) \<and> parseQuestion b = Inl e \<longrightarrow>
      (\<exists>e'. firstError (map parseQuestion (questionBlocks input)) = Some e'
            \<and> parseGift input = Inl e'))
   \<and> ((\<forall>r\<in>set questions. r < fresh st) \<and> r \<in> set questions \<and> unsupported (objects st r) \<longrightarrow>
      (\<exists>t. snd (exportGift st questions)
             = Inl (Error (''Unsupported qtype in exporter: '' @ t))))"
proof (intro conjI impI)
  assume "b \<in> set (questionBlocks input) \<and> parseQuestion b = Inl e"
  then have "Inl e \<in> set (map parseQuestion (questionBlocks input))"
    by (metis image_eqI list.set_map)
  from firstError_member [OF this] obtain e'
    where e': "firstError (map parseQuestion (questionBlocks input)) = Some e'" ..
  then have "parseGift input = Inl e'"
    unfolding parseGift_def questionBlocks_def by (rule parseLines_error)
  with e' show "\<exists>e'. firstError (map parseQuestion (questionBlocks input)) = Some e'
            \<and> parseGift input = Inl e'" by blast
next
  assume a: "(\<forall>r\<in>set questions. r < fresh st) \<and> r \<in> set questions \<and> unsupported (objects st r)"
  then obtain t where "snd (exportLoop st questions [])
      = Inl (Error (''Unsupported qtype in exporter: '' @ t))"
    using exportLoop_unsupported [of questions st r "[]"] by blast
  then have "snd (exportGift st questions) = Inl (Error (''Unsupported qtype in exporter: '' @ t))"
    unfolding exportGift_def by (auto split: prod.splits sum.splits)
  then show "\<exists>t. snd (exportGift st questions)
             = Inl (Error (''Unsupported qtype in exporter: '' @ t))" ..
qed

section \<open>The objects of the caller\<close>

text \<open>
  Claim C10: \<^verbatim>\<open>exportGift\<close> leaves every object of its caller as it was, whether it
  returns a text or an error, because each writer works on a deep copy. Every cell in use
  before the call holds after it what it held before; an object whose cells were all in
  use before the call, with its tags, its arrays and their elements, reads after the call
  as it read before; and every cell that a writer reads is a cell made during the call,
  so the writers read no cell of the caller, not even an answer or an array of one of its
  questions.
\<close>

theorem export_leaves_objects:
  "(a < fresh st \<longrightarrow> cells (fst (exportGift st questions)) a = cells st a)
   \<and> ((\<forall>a\<in>set (snd (load st r)). a < fresh st) \<longrightarrow>
        load (fst (exportGift st questions)) r = load st r)
   \<and> (\<exists>new. seen (fst (exportGift st questions)) = seen st @ new
          \<and> (\<forall>a\<in>set new. fresh st \<le> a \<and> a < fresh (fst (exportGift st questions))))"
proof -
  let ?st = "fst (exportGift st questions)"
  from exportLoop_frame [of st questions "[]"]
  have fr: "\<forall>a < fresh st. cells ?st a = cells st a"
    and sn: "\<exists>new. seen ?st = seen st @ new \<and> (\<forall>a\<in>set new. fresh st \<le> a \<and> a < fresh ?st)"
    by (simp_all add: exportGift_store)
  have "load ?st r = load st r" if "\<forall>a\<in>set (snd (load st r)). a < fresh st"
    using that fr by (intro load_cong) simp
  with fr sn show ?thesis by blast
qed



theorem all_or_nothing_witness:
  "[''Bad {''] \<in> set (questionBlocks (''Good {T}'' @ [NL, NL] @ ''Bad {''))
   \<and> parseQuestion [''Bad {''] = Inl (Error ''Brace error in question: Bad {'')
   \<and> parseGift (''Good {T}'' @ [NL, NL] @ ''Bad {'') = Inl (Error ''Brace error in question: Bad {'')
   \<and> allocateAll emptyStore [defaultQuestion Essay, defaultQuestion (Other ''cloze'')]
       = (fst (allocateAll emptyStore [defaultQuestion Essay, defaultQuestion (Other ''cloze'')]),
          [1, 3])
   \<and> unsupported
       (objects (fst (allocateAll emptyStore [defaultQuestion Essay, defaultQuestion (Other ''cloze'')])) 3)
   \<and> exportQuestions [defaultQuestion Essay, defaultQuestion (Other ''cloze'')]
       = Inl (Error ''Unsupported qtype in exporter: cloze'')"
proof -
  let ?qs = "[defaultQuestion Essay, defaultQuestion (Other ''cloze'')]"
  have b: "[''Bad {''] \<in> set (questionBlocks (''Good {T}'' @ [NL, NL] @ ''Bad {''))"
    by code_simp
  have e: "parseQuestion [''Bad {''] = Inl (Error ''Brace error in question: Bad {'')"
    by code_simp
  have f: "firstError (map parseQuestion (questionBlocks (''Good {T}'' @ [NL, NL] @ ''Bad {'')))
      = Some (Error ''Brace error in question: Bad {'')"
    by code_simp
  have rs: "snd (allocateAll emptyStore ?qs) = [1, 3]"
    by code_simp
  have u: "unsupported (objects (fst (allocateAll emptyStore ?qs)) 3)"
    by code_simp
  have fr: "fresh (fst (allocateAll emptyStore ?qs)) = 4"
    by code_simp
  have x: "exportQuestions ?qs = Inl (Error ''Unsupported qtype in exporter: cloze'')"
    by code_simp
  from all_or_nothing [of "[''Bad {'']" "''Good {T}'' @ [NL, NL] @ ''Bad {''"
      "Error ''Brace error in question: Bad {''" "[1, 3]" "fst (allocateAll emptyStore ?qs)" 3]
    b e f u fr
  have "parseGift (''Good {T}'' @ [NL, NL] @ ''Bad {'') = Inl (Error ''Brace error in question: Bad {'')"
    by auto
  moreover from rs have "allocateAll emptyStore ?qs = (fst (allocateAll emptyStore ?qs), [1, 3])"
    by (metis prod.collapse)
  ultimately show ?thesis using b e u x by simp
qed


theorem export_leaves_objects_witness:
  "fresh (fst (allocateAll emptyStore [defaultQuestion (Numerical
        [\<lparr>answer = Num NaN, answerformat = None, tolerance = Some (Tol (Fin 0)),
          fraction = Fin 1, feedback = ''any'', feedbackformat = MOODLE\<rparr>])])) = 4
   \<and> allocateAll emptyStore [defaultQuestion (Numerical
        [\<lparr>answer = Num NaN, answerformat = None, tolerance = Some (Tol (Fin 0)),
          fraction = Fin 1, feedback = ''any'', feedbackformat = MOODLE\<rparr>])] = ((fst (allocateAll emptyStore [defaultQuestion (Numerical
        [\<lparr>answer = Num NaN, answerformat = None, tolerance = Some (Tol (Fin 0)),
          fraction = Fin 1, feedback = ''any'', feedbackformat = MOODLE\<rparr>])])), [3])
   \<and> load (fst (allocateAll emptyStore [defaultQuestion (Numerical
        [\<lparr>answer = Num NaN, answerformat = None, tolerance = Some (Tol (Fin 0)),
          fraction = Fin 1, feedback = ''any'', feedbackformat = MOODLE\<rparr>])])) 3 = (defaultQuestion (Numerical [\<lparr>answer = Num NaN, answerformat = None, tolerance = Some (Tol (Fin 0)),
          fraction = Fin 1, feedback = ''any'', feedbackformat = MOODLE\<rparr>]), [3, 0, 2, 1])
   \<and> cells (fst (exportGift (fst (allocateAll emptyStore [defaultQuestion (Numerical
        [\<lparr>answer = Num NaN, answerformat = None, tolerance = Some (Tol (Fin 0)),
          fraction = Fin 1, feedback = ''any'', feedbackformat = MOODLE\<rparr>])])) [3])) 1 = AnswerCell \<lparr>answer = Num NaN, answerformat = None, tolerance = Some (Tol (Fin 0)),
          fraction = Fin 1, feedback = ''any'', feedbackformat = MOODLE\<rparr>
   \<and> load (fst (exportGift (fst (allocateAll emptyStore [defaultQuestion (Numerical
        [\<lparr>answer = Num NaN, answerformat = None, tolerance = Some (Tol (Fin 0)),
          fraction = Fin 1, feedback = ''any'', feedbackformat = MOODLE\<rparr>])])) [3])) 3 = (defaultQuestion (Numerical [\<lparr>answer = Num NaN, answerformat = None, tolerance = Some (Tol (Fin 0)),
          fraction = Fin 1, feedback = ''any'', feedbackformat = MOODLE\<rparr>]), [3, 0, 2, 1])
   \<and> seen (fst (allocateAll emptyStore [defaultQuestion (Numerical
        [\<lparr>answer = Num NaN, answerformat = None, tolerance = Some (Tol (Fin 0)),
          fraction = Fin 1, feedback = ''any'', feedbackformat = MOODLE\<rparr>])])) = []
   \<and> seen (fst (exportGift (fst (allocateAll emptyStore [defaultQuestion (Numerical
        [\<lparr>answer = Num NaN, answerformat = None, tolerance = Some (Tol (Fin 0)),
          fraction = Fin 1, feedback = ''any'', feedbackformat = MOODLE\<rparr>])])) [3])) = [7, 4, 6, 5]
   \<and> load (fst (exportGift (fst (allocateAll emptyStore [defaultQuestion (Numerical
        [\<lparr>answer = Num NaN, answerformat = None, tolerance = Some (Tol (Fin 0)),
          fraction = Fin 1, feedback = ''any'', feedbackformat = MOODLE\<rparr>])])) [3])) 7 = (defaultQuestion (Numerical [\<lparr>answer = Num Null, answerformat = None, tolerance = Some (Tol (Fin 0)),
          fraction = Fin 1, feedback = ''any'', feedbackformat = MOODLE\<rparr>]), [7, 4, 6, 5])
   \<and> snd (exportGift (fst (allocateAll emptyStore [defaultQuestion (Numerical
        [\<lparr>answer = Num NaN, answerformat = None, tolerance = Some (Tol (Fin 0)),
          fraction = Fin 1, feedback = ''any'', feedbackformat = MOODLE\<rparr>])])) [3])
       = Inr (''// question:   name: '' @ [NL] @ ''::::{#'' @ [NL, TAB] @ ''=%100%null:0#any''
              @ [NL] @ ''}'' @ [NL, NL])"
proof -
  let ?a = "\<lparr>answer = Num NaN, answerformat = None, tolerance = Some (Tol (Fin 0)),
          fraction = Fin 1, feedback = ''any'', feedbackformat = MOODLE\<rparr>"
  let ?st = "fst (allocateAll emptyStore [defaultQuestion (Numerical [?a])])"
  have fr: "fresh ?st = 4"
    by code_simp
  have rs: "snd (allocateAll emptyStore [defaultQuestion (Numerical [?a])]) = [3]"
    by code_simp
  have ld: "load ?st 3 = (defaultQuestion (Numerical [?a]), [3, 0, 2, 1])"
    by code_simp
  have c: "cells ?st 1 = AnswerCell ?a"
    by code_simp
  have s0: "seen ?st = []"
    by code_simp
  have sn: "seen (fst (exportGift ?st [3])) = [7, 4, 6, 5]"
    by code_simp
  have cp: "load (fst (exportGift ?st [3])) 7
      = (defaultQuestion (Numerical [\<lparr>answer = Num Null, answerformat = None, tolerance = Some (Tol (Fin 0)),
          fraction = Fin 1, feedback = ''any'', feedbackformat = MOODLE\<rparr>]), [7, 4, 6, 5])"
    by code_simp
  have out: "snd (exportGift ?st [3])
       = Inr (''// question:   name: '' @ [NL] @ ''::::{#'' @ [NL, TAB] @ ''=%100%null:0#any''
              @ [NL] @ ''}'' @ [NL, NL])"
    by code_simp
  from export_leaves_objects [of 1 ?st "[3]" 3] fr ld c
  have "cells (fst (exportGift ?st [3])) 1 = AnswerCell ?a"
    and "load (fst (exportGift ?st [3])) 3 = (defaultQuestion (Numerical [?a]), [3, 0, 2, 1])"
    by simp_all
  moreover from rs have "allocateAll emptyStore [defaultQuestion (Numerical [?a])] = (?st, [3])"
    by (metis prod.collapse)
  ultimately show ?thesis using fr ld s0 sn cp out by (simp only: simp_thms)
qed

end
